theory Spec2Isabelle
  imports Main "HOL-Library.Word" "HOL-Library.Sublist" "HOL-Library.AList"
begin

section \<open>JavaScript strings\<close>

text \<open>
  A JavaScript string is a sequence of 16-bit code units. The functions of this section are
  the library methods that the server calls on strings: \<^verbatim>\<open>split\<close> with a one-unit separator,
  \<^verbatim>\<open>trim\<close>, \<^verbatim>\<open>includes\<close>, \<^verbatim>\<open>replace\<close> with a string pattern, and the rendering of a number
  inside a template literal. The chunk handed to \<^verbatim>\<open>processOutput\<close> is the string
  \<^verbatim>\<open>data.toString()\<close>, so the model starts from strings, not from the bytes of the pipe.
\<close>

type_synonym jschar = "16 word"
type_synonym jsstring = "jschar list"

definition js :: "string \<Rightarrow> jsstring" where
  "js s = map (\<lambda>c. of_nat (of_char c)) s"

definition CR :: jschar where
  "CR = 0x0D"

definition LF :: jschar where
  "LF = 0x0A"

text \<open>\<^verbatim>\<open>s.split(sep)\<close> for a separator of one code unit: never the empty array.\<close>

fun splitFrom :: "jschar \<Rightarrow> jsstring \<Rightarrow> jsstring \<Rightarrow> jsstring list" where
  "splitFrom sep part [] = [part]"
| "splitFrom sep part (c # cs) =
     (if c = sep then part # splitFrom sep [] cs else splitFrom sep (part @ [c]) cs)"

definition js_split :: "jschar \<Rightarrow> jsstring \<Rightarrow> jsstring list" where
  "js_split sep s = splitFrom sep [] s"

text \<open>\<^verbatim>\<open>parts.join(sep)\<close>, used to state what \<^verbatim>\<open>split\<close> keeps.\<close>

fun js_join :: "jschar \<Rightarrow> jsstring list \<Rightarrow> jsstring" where
  "js_join sep [] = []"
| "js_join sep [l] = l"
| "js_join sep (l # m # ls) = l @ sep # js_join sep (m # ls)"

text \<open>
  The code units that \<^verbatim>\<open>trim\<close> strips: ECMAScript's WhiteSpace (TAB, VT, FF, SP, NBSP,
  ZWNBSP and the space separators of Unicode) and LineTerminator (LF, CR, LS, PS).
\<close>

definition isWhiteSpace :: "jschar \<Rightarrow> bool" where
  "isWhiteSpace c \<longleftrightarrow>
     c = 0x09 \<or> c = 0x0A \<or> c = 0x0B \<or> c = 0x0C \<or> c = 0x0D \<or> c = 0x20 \<or>
     c = 0xA0 \<or> c = 0x1680 \<or> (0x2000 \<le> c \<and> c \<le> 0x200A) \<or>
     c = 0x2028 \<or> c = 0x2029 \<or> c = 0x202F \<or> c = 0x205F \<or> c = 0x3000 \<or> c = 0xFEFF"

definition js_trim :: "jsstring \<Rightarrow> jsstring" where
  "js_trim s = rev (dropWhile isWhiteSpace (rev (dropWhile isWhiteSpace s)))"

text \<open>\<^verbatim>\<open>s.includes(sub)\<close>: \<^verbatim>\<open>sub\<close> occurs at some position of \<^verbatim>\<open>s\<close>.\<close>

fun js_includes :: "jsstring \<Rightarrow> jsstring \<Rightarrow> bool" where
  "js_includes [] sub = (sub = [])"
| "js_includes (c # cs) sub = (prefix sub (c # cs) \<or> js_includes cs sub)"

text \<open>
  \<^verbatim>\<open>s.replace(pat, rep)\<close> with a string pattern: only the first occurrence of \<^verbatim>\<open>pat\<close>,
  wherever it is, is replaced.
\<close>

fun js_replace :: "jsstring \<Rightarrow> jsstring \<Rightarrow> jsstring \<Rightarrow> jsstring" where
  "js_replace [] pat rep = (if pat = [] then rep else [])"
| "js_replace (c # cs) pat rep =
     (if prefix pat (c # cs) then rep @ drop (length pat) (c # cs)
      else c # js_replace cs pat rep)"

text \<open>A number in a template literal: decimal digits, with a minus sign if negative.\<close>

fun digitsOf :: "nat \<Rightarrow> jsstring" where
  "digitsOf n =
     (if n < 10 then [of_nat (48 + n)]
      else digitsOf (n div 10) @ [of_nat (48 + n mod 10)])"

declare digitsOf.simps [simp del]

definition numberToString :: "int \<Rightarrow> jsstring" where
  "numberToString i = (if i < 0 then 0x2D # digitsOf (nat (- i)) else digitsOf (nat i))"

text \<open>
  The exit code that the \<^verbatim>\<open>close\<close> event carries is a number, or \<^verbatim>\<open>null\<close> when the child
  was ended by a signal.
\<close>

fun codeToString :: "int option \<Rightarrow> jsstring" where
  "codeToString None = js ''null''"
| "codeToString (Some i) = numberToString i"

section \<open>The regular expression of the progress test\<close>

text \<open>
  \<^verbatim>\<open>/\[\d+\/\d+\]/.test(line)\<close>. The class \<^verbatim>\<open>\d\<close> is the ASCII digits. A run of digits must
  be followed by a code unit that is no digit, so the longest run is the only one that can
  match, and the matcher takes it.
\<close>

definition isDigit :: "jschar \<Rightarrow> bool" where
  "isDigit c \<longleftrightarrow> 0x30 \<le> c \<and> c \<le> 0x39"

definition digitsThen :: "jschar \<Rightarrow> jsstring \<Rightarrow> jsstring option" where
  "digitsThen closer s =
     (if takeWhile isDigit s = [] then None
      else (case dropWhile isDigit s of
              [] \<Rightarrow> None
            | c # rest \<Rightarrow> if c = closer then Some rest else None))"

definition matchFractionAt :: "jsstring \<Rightarrow> bool" where
  "matchFractionAt s =
     (case s of
        [] \<Rightarrow> False
      | c # r \<Rightarrow> c = 0x5B \<and>
          (case digitsThen 0x2F r of
             None \<Rightarrow> False
           | Some r' \<Rightarrow> digitsThen 0x5D r' \<noteq> None))"

fun fractionTest :: "jsstring \<Rightarrow> bool" where
  "fractionTest [] = False"
| "fractionTest (c # cs) = (matchFractionAt (c # cs) \<or> fractionTest cs)"

section \<open>Events\<close>

datatype output_type = Stdout | Stderr | System | Success | Error

text \<open>
  The payload of a \<^verbatim>\<open>commandOutput\<close> event. A property that the object literal does not
  set is \<open>None\<close>; the property \<^verbatim>\<open>output\<close> is the field \<open>output_text\<close>.
\<close>

record command_event =
  commandId :: jsstring
  output_text :: jsstring
  outputType :: output_type
  isProgress :: "bool option"
  replaceLast :: "bool option"

datatype emission =
    CommandOutput command_event
  | CommandFinished jsstring int

section \<open>processOutput\<close>

text \<open>The \<^verbatim>\<open>isProgress\<close> expression of a complete line.\<close>

definition progressLine :: "jsstring \<Rightarrow> bool" where
  "progressLine line \<longleftrightarrow>
     js_includes line [0x2591] \<or>
     js_includes line [0x2588] \<or>
     js_includes line (js ''%'') \<or>
     js_includes line (js ''...'') \<or>
     fractionTest line"

definition lineEvent :: "output_type \<Rightarrow> jsstring \<Rightarrow> jsstring \<Rightarrow> command_event" where
  "lineEvent type cid line =
     \<lparr>commandId = cid, output_text = line, outputType = type,
      isProgress = Some (progressLine line), replaceLast = None\<rparr>"

definition lastLineEvent :: "output_type \<Rightarrow> jsstring \<Rightarrow> jsstring \<Rightarrow> command_event" where
  "lastLineEvent type cid lastLine =
     \<lparr>commandId = cid, output_text = lastLine, outputType = type,
      isProgress = Some True, replaceLast = Some True\<rparr>"

text \<open>
  The first three statements of \<^verbatim>\<open>processOutput\<close>: append the chunk to the buffer, split at
  the carriage returns, and pop the last part. The result is the complete lines and the
  popped part.
\<close>

definition reassemble :: "jsstring \<Rightarrow> jsstring \<Rightarrow> jsstring list \<times> jsstring" where
  "reassemble buffer data =
     (let parts = js_split CR (buffer @ data) in (butlast parts, last parts))"

text \<open>
  \<^verbatim>\<open>processOutput(buffer, data, type, commandId)\<close> returns the new buffer; the model returns
  with it the events that the call emits, in order.
\<close>

definition processOutput ::
  "jsstring \<Rightarrow> jsstring \<Rightarrow> output_type \<Rightarrow> jsstring \<Rightarrow> command_event list \<times> jsstring" where
  "processOutput buffer data type cid =
     (case reassemble buffer data of
        (lines, lastLine) \<Rightarrow>
          (map (lineEvent type cid) (filter (\<lambda>line. js_trim line \<noteq> []) lines) @
           (if js_trim lastLine \<noteq> [] then [lastLineEvent type cid lastLine] else []),
           lastLine))"

section \<open>Children and promises\<close>

text \<open>
  How a promise is settled (a rejection carries the message of its \<^verbatim>\<open>Error\<close>), the variables
  that the listeners of one call of \<^verbatim>\<open>executeCommand\<close> share, and what a child process
  reports to these listeners.
\<close>

datatype settlement = Resolved int | Rejected jsstring

record run =
  stdoutBuffer :: jsstring
  stderrBuffer :: jsstring
  settled :: "settlement option"

datatype notification =
    StdoutData jsstring
  | StderrData jsstring
  | Close "int option"
  | SpawnError jsstring

section \<open>The server's state\<close>

text \<open>
  \<^verbatim>\<open>activeProcesses\<close> is a JavaScript \<^verbatim>\<open>Map\<close> from command ids to child processes: an
  association list in insertion order, where \<^verbatim>\<open>set\<close> is \<open>AList.update\<close>, \<^verbatim>\<open>get\<close> is
  \<open>map_of\<close> and \<^verbatim>\<open>delete\<close> is \<open>AList.delete\<close>. A child process is named by the number of the
  \<^verbatim>\<open>spawn\<close> call that made it. The effects of the server are logged in the state:
  \<open>emitted\<close> is what \<^verbatim>\<open>io.emit\<close> has sent, \<open>spawned\<close> the commands and working directories
  given to \<^verbatim>\<open>spawn\<close>, \<open>killed\<close> the children whose \<^verbatim>\<open>kill()\<close> was called, and \<open>exited\<close> the
  argument of \<^verbatim>\<open>process.exit\<close>. The listeners of a child stay attached when its promise is
  settled: \<open>undelivered\<close> holds, for every such child, the command id and the variables of
  its listeners and the reports that have not reached them yet.
\<close>

record server =
  activeProcesses :: "(jsstring \<times> nat) list"
  emitted :: "emission list"
  spawned :: "(jsstring \<times> jsstring) list"
  killed :: "nat list"
  exited :: "int option"
  undelivered :: "(jsstring \<times> run \<times> notification list) list"

definition io_emit :: "emission \<Rightarrow> server \<Rightarrow> server" where
  "io_emit e s = s\<lparr>emitted := emitted s @ [e]\<rparr>"

definition emitOutputs :: "command_event list \<Rightarrow> server \<Rightarrow> server" where
  "emitOutputs evs s = s\<lparr>emitted := emitted s @ map CommandOutput evs\<rparr>"

section \<open>executeCommand\<close>

text \<open>
  The promise of \<^verbatim>\<open>executeCommand\<close> is settled by the first call of \<^verbatim>\<open>resolve\<close> or \<^verbatim>\<open>reject\<close>;
  a later call changes nothing.
\<close>

definition settle :: "settlement \<Rightarrow> run \<Rightarrow> run" where
  "settle v r = (case settled r of None \<Rightarrow> r\<lparr>settled := Some v\<rparr> | Some _ \<Rightarrow> r)"

definition onStdoutData :: "jsstring \<Rightarrow> jsstring \<Rightarrow> server \<times> run \<Rightarrow> server \<times> run" where
  "onStdoutData cid data sr =
     (case sr of (s, r) \<Rightarrow>
        (case processOutput (stdoutBuffer r) data Stdout cid of
           (evs, lastLine) \<Rightarrow> (emitOutputs evs s, r\<lparr>stdoutBuffer := lastLine\<rparr>)))"

definition onStderrData :: "jsstring \<Rightarrow> jsstring \<Rightarrow> server \<times> run \<Rightarrow> server \<times> run" where
  "onStderrData cid data sr =
     (case sr of (s, r) \<Rightarrow>
        (case processOutput (stderrBuffer r) data Stderr cid of
           (evs, lastLine) \<Rightarrow> (emitOutputs evs s, r\<lparr>stderrBuffer := lastLine\<rparr>)))"

definition flushEvent :: "output_type \<Rightarrow> jsstring \<Rightarrow> jsstring \<Rightarrow> command_event" where
  "flushEvent type cid buffer =
     \<lparr>commandId = cid, output_text = buffer @ [LF], outputType = type,
      isProgress = None, replaceLast = None\<rparr>"

definition finishedEvent :: "jsstring \<Rightarrow> int option \<Rightarrow> command_event" where
  "finishedEvent cid code =
     \<lparr>commandId = cid,
      output_text = js ''Process finished with exit code: '' @ codeToString code @ [LF],
      outputType = (if code = Some 0 then Success else Error),
      isProgress = None, replaceLast = None\<rparr>"

definition closeEvents :: "jsstring \<Rightarrow> int option \<Rightarrow> run \<Rightarrow> command_event list" where
  "closeEvents cid code r =
     (if js_trim (stdoutBuffer r) \<noteq> [] then [flushEvent Stdout cid (stdoutBuffer r)] else []) @
     (if js_trim (stderrBuffer r) \<noteq> [] then [flushEvent Stderr cid (stderrBuffer r)] else []) @
     [finishedEvent cid code]"

definition onClose :: "jsstring \<Rightarrow> int option \<Rightarrow> server \<times> run \<Rightarrow> server \<times> run" where
  "onClose cid code sr =
     (case sr of (s, r) \<Rightarrow>
        (let s1 = emitOutputs (closeEvents cid code r) s;
             s2 = s1\<lparr>activeProcesses := AList.delete cid (activeProcesses s1)\<rparr>
         in if code = Some 0 then (s2, settle (Resolved 0) r)
            else (s2, settle (Rejected (js ''Command failed with exit code '' @ codeToString code)) r)))"

definition onError :: "jsstring \<Rightarrow> jsstring \<Rightarrow> server \<times> run \<Rightarrow> server \<times> run" where
  "onError cid message sr = (case sr of (s, r) \<Rightarrow> (s, settle (Rejected message) r))"

fun notify :: "jsstring \<Rightarrow> notification \<Rightarrow> server \<times> run \<Rightarrow> server \<times> run" where
  "notify cid (StdoutData data) sr = onStdoutData cid data sr"
| "notify cid (StderrData data) sr = onStderrData cid data sr"
| "notify cid (Close code) sr = onClose cid code sr"
| "notify cid (SpawnError message) sr = onError cid message sr"

text \<open>The listeners run in the order of the child's reports, each report reaching its listener.\<close>

fun deliver :: "jsstring \<Rightarrow> notification list \<Rightarrow> server \<times> run \<Rightarrow> server \<times> run" where
  "deliver cid [] sr = sr"
| "deliver cid (n # ns) sr = deliver cid ns (notify cid n sr)"

text \<open>
  The code that awaits the promise continues when a report has settled it. The result is
  the state at that moment and the reports that the child has yet to make; if no report
  settles the promise, it stays pending.
\<close>

fun deliverUntilSettled ::
  "jsstring \<Rightarrow> notification list \<Rightarrow> server \<times> run
     \<Rightarrow> (server \<times> run) \<times> notification list" where
  "deliverUntilSettled cid [] sr = (sr, [])"
| "deliverUntilSettled cid (n # ns) sr =
     (let sr' = notify cid n sr
      in if settled (snd sr') \<noteq> None then (sr', ns) else deliverUntilSettled cid ns sr')"

definition newRun :: run where
  "newRun = \<lparr>stdoutBuffer = [], stderrBuffer = [], settled = None\<rparr>"

text \<open>
  What lies outside the server: the clock, the file system, \<^verbatim>\<open>path.join\<close>, and what each
  spawned child reports (by the number of its \<^verbatim>\<open>spawn\<close> call).
\<close>

record env =
  dateNow :: jsstring
  reposDir :: jsstring
  pathJoin :: "jsstring \<Rightarrow> jsstring \<Rightarrow> jsstring"
  existsSync :: "jsstring \<Rightarrow> bool"
  child :: "nat \<Rightarrow> notification list"

text \<open>
  \<^verbatim>\<open>executeCommand(command, cwd, commandId, description)\<close>; an absent description is
  \<open>None\<close>. The result is how the promise was settled (\<open>None\<close>: never) and the server's state
  at that moment, where the child's later reports are \<open>undelivered\<close>.
\<close>

definition executeCommand ::
  "env \<Rightarrow> jsstring \<Rightarrow> jsstring \<Rightarrow> jsstring \<Rightarrow> jsstring option \<Rightarrow> server
     \<Rightarrow> settlement option \<times> server" where
  "executeCommand E command cwd cid description s =
     (let s1 = (case description of
                  None \<Rightarrow> s
                | Some d \<Rightarrow>
                    if d \<noteq> [] then
                      io_emit (CommandOutput
                        \<lparr>commandId = cid, output_text = d @ [LF], outputType = System,
                         isProgress = None, replaceLast = None\<rparr>) s
                    else s);
          childProcess = length (spawned s1);
          s2 = s1\<lparr>spawned := spawned s1 @ [(command, cwd)]\<rparr>;
          s3 = s2\<lparr>activeProcesses := AList.update cid childProcess (activeProcesses s2)\<rparr>
      in (case deliverUntilSettled cid (child E childProcess) (s3, newRun) of
            ((s4, r), later) \<Rightarrow>
              (settled r, s4\<lparr>undelivered := undelivered s4 @ [(cid, r, later)]\<rparr>)))"

text \<open>
  Afterwards the undelivered reports reach their listeners, child by child. In Node a child
  reports nothing after \<^verbatim>\<open>close\<close>, and after the \<^verbatim>\<open>error\<close> of a failed spawn it reports
  \<^verbatim>\<open>close\<close> with a negative code.
\<close>

fun drain :: "(jsstring \<times> run \<times> notification list) list \<Rightarrow> server \<Rightarrow> server" where
  "drain [] s = s"
| "drain ((cid, r, ns) # ps) s = drain ps (fst (deliver cid ns (s, r)))"

definition afterwards :: "server \<Rightarrow> server" where
  "afterwards s = drain (undelivered s) (s\<lparr>undelivered := []\<rparr>)"

section \<open>The routes\<close>

record response =
  status :: nat
  success :: bool
  body_commandId :: "jsstring option"
  body_error :: "jsstring option"

definition repoNameOf :: "jsstring \<Rightarrow> jsstring" where
  "repoNameOf gitUrl = js_replace (last (js_split 0x2F gitUrl)) (js ''.git'') []"

definition catchBlock :: "jsstring \<Rightarrow> jsstring \<Rightarrow> server \<Rightarrow> response option \<times> server" where
  "catchBlock cid message s =
     (let s1 = io_emit (CommandOutput
                 \<lparr>commandId = cid, output_text = js ''Error: '' @ message @ [LF],
                  outputType = Stderr, isProgress = None, replaceLast = None\<rparr>) s;
          s2 = io_emit (CommandFinished cid 1) s1
      in (Some \<lparr>status = 500, success = False, body_commandId = None,
                body_error = Some message\<rparr>, s2))"

text \<open>
  \<^verbatim>\<open>await\<close> inside the \<^verbatim>\<open>try\<close> block: a fulfilled promise continues with the rest of the
  block, a rejected one enters the \<^verbatim>\<open>catch\<close> block, and a pending one never continues, so the
  request gets no response.
\<close>

fun await ::
  "jsstring \<Rightarrow> settlement option \<times> server \<Rightarrow> (server \<Rightarrow> response option \<times> server)
     \<Rightarrow> response option \<times> server" where
  "await cid (Some (Resolved code), s) rest = rest s"
| "await cid (Some (Rejected message), s) rest = catchBlock cid message s"
| "await cid (None, s) rest = (None, s)"

definition deploy :: "env \<Rightarrow> jsstring \<Rightarrow> jsstring \<Rightarrow> server \<Rightarrow> response option \<times> server" where
  "deploy E gitUrl branch s =
     (let cid = dateNow E;
          repoName = repoNameOf gitUrl;
          repoPath = pathJoin E (reposDir E) repoName;
          s0 = io_emit (CommandOutput
                 \<lparr>commandId = cid,
                  output_text = js ''Starting deployment process for '' @ repoName @ js ''...'' @ [LF],
                  outputType = System, isProgress = None, replaceLast = None\<rparr>) s
      in await cid
           (if \<not> existsSync E repoPath then
              executeCommand E (js ''git clone '' @ gitUrl) (reposDir E) cid
                (Some (js ''Cloning repository '' @ gitUrl @ js ''...'')) s0
            else
              executeCommand E (js ''git fetch --all'') repoPath cid
                (Some (js ''Repository exists, fetching latest changes...'')) s0)
           (\<lambda>s1. await cid
              (executeCommand E
                 (js ''git checkout '' @ branch @ js '' && git pull origin '' @ branch)
                 repoPath cid (Some (js ''Checking out branch: '' @ branch)) s1)
              (\<lambda>s2. await cid
                 (executeCommand E (js ''npm install'') repoPath cid
                    (Some (js ''Installing dependencies...'')) s2)
                 (\<lambda>s3. await cid
                    (executeCommand E (js ''npm run build'') repoPath cid
                       (Some (js ''Building the application...'')) s3)
                    (\<lambda>s4. (Some \<lparr>status = 200, success = True, body_commandId = Some cid,
                                   body_error = None\<rparr>,
                            io_emit (CommandFinished cid 0) s4))))))"

definition stop :: "jsstring \<Rightarrow> server \<Rightarrow> response \<times> server" where
  "stop cid s =
     (case map_of (activeProcesses s) cid of
        Some processToStop \<Rightarrow>
          (let s1 = s\<lparr>killed := killed s @ [processToStop]\<rparr>;
               s2 = s1\<lparr>activeProcesses := AList.delete cid (activeProcesses s1)\<rparr>;
               s3 = io_emit (CommandOutput
                      \<lparr>commandId = cid, output_text = js ''Process stopped by user'' @ [LF],
                       outputType = System, isProgress = None, replaceLast = None\<rparr>) s2
           in (\<lparr>status = 200, success = True, body_commandId = None, body_error = None\<rparr>, s3))
      | None \<Rightarrow>
          (\<lparr>status = 404, success = False, body_commandId = None,
            body_error = Some (js ''Process not found'')\<rparr>, s))"

text \<open>The \<^verbatim>\<open>SIGTERM\<close> listener: kill every tracked child, clear the map, exit.\<close>

definition sigterm :: "server \<Rightarrow> server" where
  "sigterm s =
     (let s1 = s\<lparr>killed := killed s @ map snd (activeProcesses s)\<rparr>;
          s2 = s1\<lparr>activeProcesses := []\<rparr>
      in s2\<lparr>exited := Some 0\<rparr>)"

section \<open>Notions for stating the properties\<close>

text \<open>
  The reports of a child that carry output, the chunks of each stream among them, the
  exit codes of its close reports, and what the listener of a report does to the promise.
\<close>

fun isData :: "notification \<Rightarrow> bool" where
  "isData (StdoutData d) = True"
| "isData (StderrData d) = True"
| "isData (Close code) = False"
| "isData (SpawnError message) = False"

fun stdoutChunks :: "notification list \<Rightarrow> jsstring list" where
  "stdoutChunks [] = []"
| "stdoutChunks (StdoutData d # ns) = d # stdoutChunks ns"
| "stdoutChunks (n # ns) = stdoutChunks ns"

fun stderrChunks :: "notification list \<Rightarrow> jsstring list" where
  "stderrChunks [] = []"
| "stderrChunks (StderrData d # ns) = d # stderrChunks ns"
| "stderrChunks (n # ns) = stderrChunks ns"

fun isLineEventOf :: "output_type \<Rightarrow> emission \<Rightarrow> bool" where
  "isLineEventOf type (CommandOutput e) = (outputType e = type \<and> replaceLast e = None)"
| "isLineEventOf type (CommandFinished cid code) = False"

fun isTerminal :: "emission \<Rightarrow> bool" where
  "isTerminal (CommandOutput e) = (outputType e = Success \<or> outputType e = Error)"
| "isTerminal (CommandFinished cid code) = False"

fun isFinished :: "emission \<Rightarrow> bool" where
  "isFinished (CommandOutput e) = False"
| "isFinished (CommandFinished cid code) = True"

fun settles :: "notification \<Rightarrow> settlement option" where
  "settles (StdoutData d) = None"
| "settles (StderrData d) = None"
| "settles (Close code) =
     Some (if code = Some 0 then Resolved 0
           else Rejected (js ''Command failed with exit code '' @ codeToString code))"
| "settles (SpawnError message) = Some (Rejected message)"

fun closeCodes :: "notification list \<Rightarrow> int option list" where
  "closeCodes [] = []"
| "closeCodes (Close code # ns) = code # closeCodes ns"
| "closeCodes (n # ns) = closeCodes ns"

fun outcome :: "notification list \<Rightarrow> settlement option" where
  "outcome [] = None"
| "outcome (n # ns) = (case settles n of None \<Rightarrow> outcome ns | Some v \<Rightarrow> Some v)"

definition server0 :: server where
  "server0 =
     \<lparr>activeProcesses = [], emitted = [], spawned = [], killed = [], exited = None,
      undelivered = []\<rparr>"

text \<open>
  An emission whose text, if it has one, is not blank, and one whose text holds no carriage
  return.
\<close>

fun nonblankEmission :: "emission \<Rightarrow> bool" where
  "nonblankEmission (CommandOutput e) = (js_trim (output_text e) \<noteq> [])"
| "nonblankEmission (CommandFinished cid code) = True"

fun crFreeEmission :: "emission \<Rightarrow> bool" where
  "crFreeEmission (CommandOutput e) = (CR \<notin> set (output_text e))"
| "crFreeEmission (CommandFinished cid code) = True"

text \<open>A registry with two running commands.\<close>

definition exampleServer :: server where
  "exampleServer =
     \<lparr>activeProcesses = [(js ''1700000000000'', 0), (js ''1700000000001'', 4)],
      emitted = [], spawned = [], killed = [], exited = None, undelivered = []\<rparr>"

text \<open>
  The commands that \<^verbatim>\<open>/api/deploy\<close> gives to \<^verbatim>\<open>executeCommand\<close>, in order, each with its
  working directory.
\<close>

definition deployCommands :: "env \<Rightarrow> jsstring \<Rightarrow> jsstring \<Rightarrow> (jsstring \<times> jsstring) list" where
  "deployCommands E gitUrl branch =
     (let repoPath = pathJoin E (reposDir E) (repoNameOf gitUrl)
      in [if \<not> existsSync E repoPath then (js ''git clone '' @ gitUrl, reposDir E)
          else (js ''git fetch --all'', repoPath),
          (js ''git checkout '' @ branch @ js '' && git pull origin '' @ branch, repoPath),
          (js ''npm install'', repoPath),
          (js ''npm run build'', repoPath)])"

text \<open>What \<^verbatim>\<open>executeCommand\<close> emits for its description before it spawns.\<close>

definition descriptionEvents :: "jsstring \<Rightarrow> jsstring option \<Rightarrow> emission list" where
  "descriptionEvents cid description =
     (case description of
        None \<Rightarrow> []
      | Some d \<Rightarrow>
          if d \<noteq> [] then
            [CommandOutput \<lparr>commandId = cid, output_text = d @ [LF], outputType = System,
               isProgress = None, replaceLast = None\<rparr>]
          else [])"

text \<open>
  Three worlds: one where no child can be spawned, so that each reports the error and then
  its close with code -2; one where the third child (the install step) exits with code 1
  and the others with 0; and one where every child prints a line and closes with a given
  code.
\<close>

definition failingSpawnEnv :: env where
  "failingSpawnEnv =
     \<lparr>dateNow = js ''7'', reposDir = js ''/srv/repos'',
      pathJoin = (\<lambda>a b. a @ js ''/'' @ b), existsSync = (\<lambda>p. True),
      child = (\<lambda>n. [SpawnError (js ''spawn /bin/sh ENOENT''), Close (Some (- 2))])\<rparr>"

definition failingInstallEnv :: env where
  "failingInstallEnv =
     \<lparr>dateNow = js ''7'', reposDir = js ''/srv/repos'',
      pathJoin = (\<lambda>a b. a @ js ''/'' @ b), existsSync = (\<lambda>p. False),
      child = (\<lambda>n. if n = 2 then [StderrData (js ''npm ERR!'' @ [LF]), Close (Some 1)]
                     else [Close (Some 0)])\<rparr>"


section \<open>Splitting and joining\<close>

lemma splitFrom_part:
  "splitFrom sep part s = (part @ hd (splitFrom sep [] s)) # tl (splitFrom sep [] s)"
proof (induction s arbitrary: part)
  case Nil
  then show ?case by simp
next
  case (Cons c s)
  show ?case
  proof (cases "c = sep")
    case True
    then show ?thesis by simp
  next
    case False
    then show ?thesis
      using Cons.IH [of "part @ [c]"] Cons.IH [of "[c]"] by simp
  qed
qed

lemma js_split_Nil [simp]: "js_split sep [] = [[]]"
  by (simp add: js_split_def)

lemma js_split_Cons:
  "js_split sep (c # cs) =
     (if c = sep then [] # js_split sep cs
      else (c # hd (js_split sep cs)) # tl (js_split sep cs))"
  using splitFrom_part [of sep "[c]" cs] by (simp add: js_split_def)

lemma js_split_not_Nil [simp]: "js_split sep s \<noteq> []"
  by (induction s) (auto simp: js_split_Cons)

lemma js_split_append:
  "js_split sep (a @ b) =
     butlast (js_split sep a) @ (last (js_split sep a) @ hd (js_split sep b)) # tl (js_split sep b)"
proof (induction a)
  case Nil
  then show ?case by simp
next
  case (Cons c a)
  show ?case
  proof (cases "c = sep")
    case True
    then show ?thesis using Cons by (simp add: js_split_Cons)
  next
    case False
    then show ?thesis using Cons
      by (cases "js_split sep a") (auto simp: butlast_append js_split_Cons)
  qed
qed

lemma js_join_Cons: "ls \<noteq> [] \<Longrightarrow> js_join sep (l # ls) = l @ sep # js_join sep ls"
  by (cases ls) auto

lemma js_join_split: "js_join sep (js_split sep s) = s"
proof (induction s)
  case Nil
  then show ?case by simp
next
  case (Cons c s)
  show ?case
  proof (cases "js_split sep s")
    case Nil
    then show ?thesis by simp
  next
    case (Cons l ls)
    then show ?thesis using Cons.IH
      by (cases ls) (auto simp: js_split_Cons)
  qed
qed

lemma js_split_no_sep: "l \<in> set (js_split sep s) \<Longrightarrow> sep \<notin> set l"
proof (induction s arbitrary: l)
  case Nil
  then show ?case by simp
next
  case (Cons c s)
  then show ?case
    by (cases "js_split sep s") (auto simp: js_split_Cons split: if_splits)
qed

lemma js_split_no_sep_id: "sep \<notin> set s \<Longrightarrow> js_split sep s = [s]"
  by (induction s) (auto simp: js_split_Cons)

lemma js_split_last_append:
  "js_split sep (last (js_split sep a) @ b) =
     (last (js_split sep a) @ hd (js_split sep b)) # tl (js_split sep b)"
proof -
  have "sep \<notin> set (last (js_split sep a))"
    by (rule js_split_no_sep [where s = a]) simp
  then have "js_split sep (last (js_split sep a)) = [last (js_split sep a)]"
    by (rule js_split_no_sep_id)
  then show ?thesis
    using js_split_append [of sep "last (js_split sep a)" b] by simp
qed

lemma butlast_split_append:
  "butlast (js_split sep (a @ b)) =
     butlast (js_split sep a) @ butlast (js_split sep (last (js_split sep a) @ b))"
  unfolding js_split_last_append
  by (subst js_split_append) (simp add: butlast_append)

lemma last_split_append:
  "last (js_split sep (a @ b)) = last (js_split sep (last (js_split sep a) @ b))"
  unfolding js_split_last_append
  by (subst js_split_append) simp

section \<open>The progress test\<close>

lemma js_includes_sublist: "js_includes s sub \<longleftrightarrow> sublist sub s"
  by (induction s) (simp_all add: sublist_Cons_right)

lemma js_includes_iff: "js_includes s sub \<longleftrightarrow> (\<exists>u v. s = u @ sub @ v)"
  by (simp add: js_includes_sublist sublist_def)

lemma js_includes_single: "js_includes s [c] \<longleftrightarrow> c \<in> set s"
  by (induction s) auto

lemma digitsThen_iff:
  assumes "\<not> isDigit cl"
  shows "digitsThen cl s = Some r \<longleftrightarrow>
           (\<exists>n. n \<noteq> [] \<and> list_all isDigit n \<and> s = n @ cl # r)"
proof
  assume h: "digitsThen cl s = Some r"
  then have ne: "takeWhile isDigit s \<noteq> []" and dr: "dropWhile isDigit s = cl # r"
    by (auto simp: digitsThen_def split: if_splits list.splits)
  have "s = takeWhile isDigit s @ cl # r"
    using dr takeWhile_dropWhile_id [of isDigit s] by simp
  moreover have "list_all isDigit (takeWhile isDigit s)"
    by (simp add: list_all_iff) (meson set_takeWhileD)
  ultimately show "\<exists>n. n \<noteq> [] \<and> list_all isDigit n \<and> s = n @ cl # r"
    using ne by blast
next
  assume "\<exists>n. n \<noteq> [] \<and> list_all isDigit n \<and> s = n @ cl # r"
  then obtain n where n: "n \<noteq> []" "list_all isDigit n" "s = n @ cl # r"
    by blast
  have all: "\<And>x. x \<in> set n \<Longrightarrow> isDigit x"
    using n(2) by (simp add: list_all_iff)
  have t: "takeWhile isDigit s = n"
    using n(3) assms all by (simp add: takeWhile_tail)
  have d: "dropWhile isDigit s = cl # r"
    using n(3) assms all by (simp add: dropWhile_append3)
  show "digitsThen cl s = Some r"
    using t d n(1) by (simp add: digitsThen_def)
qed

lemma slash_not_digit: "\<not> isDigit 0x2F"
  by (simp add: isDigit_def)

lemma bracket_not_digit: "\<not> isDigit 0x5D"
  by (simp add: isDigit_def)

lemma matchFractionAt_iff:
  "matchFractionAt s \<longleftrightarrow>
     (\<exists>n m v. n \<noteq> [] \<and> m \<noteq> [] \<and> list_all isDigit n \<and> list_all isDigit m \<and>
        s = [0x5B] @ n @ [0x2F] @ m @ [0x5D] @ v)"
proof
  assume h: "matchFractionAt s"
  then obtain r r' r'' where s: "s = 0x5B # r" and a: "digitsThen 0x2F r = Some r'"
    and b: "digitsThen 0x5D r' = Some r''"
    by (auto simp: matchFractionAt_def split: list.splits option.splits)
  from a obtain n where n: "n \<noteq> []" "list_all isDigit n" "r = n @ 0x2F # r'"
    using digitsThen_iff [OF slash_not_digit] by blast
  from b obtain m where m: "m \<noteq> []" "list_all isDigit m" "r' = m @ 0x5D # r''"
    using digitsThen_iff [OF bracket_not_digit] by blast
  have "s = [0x5B] @ n @ [0x2F] @ m @ [0x5D] @ r''"
    using s n(3) m(3) by simp
  then show "\<exists>n m v. n \<noteq> [] \<and> m \<noteq> [] \<and> list_all isDigit n \<and> list_all isDigit m \<and>
        s = [0x5B] @ n @ [0x2F] @ m @ [0x5D] @ v"
    using n(1,2) m(1,2) by blast
next
  assume "\<exists>n m v. n \<noteq> [] \<and> m \<noteq> [] \<and> list_all isDigit n \<and> list_all isDigit m \<and>
        s = [0x5B] @ n @ [0x2F] @ m @ [0x5D] @ v"
  then obtain n m v where n: "n \<noteq> []" "list_all isDigit n" and m: "m \<noteq> []" "list_all isDigit m"
    and s: "s = [0x5B] @ n @ [0x2F] @ m @ [0x5D] @ v"
    by blast
  have a: "digitsThen 0x2F (n @ 0x2F # m @ 0x5D # v) = Some (m @ 0x5D # v)"
    using digitsThen_iff [OF slash_not_digit] n by blast
  have b: "digitsThen 0x5D (m @ 0x5D # v) = Some v"
    using digitsThen_iff [OF bracket_not_digit] m by blast
  show "matchFractionAt s"
    using s a b by (simp add: matchFractionAt_def)
qed

lemma fractionTest_iff: "fractionTest s \<longleftrightarrow> (\<exists>u t. s = u @ t \<and> matchFractionAt t)"
proof (induction s)
  case Nil
  then show ?case by (simp add: matchFractionAt_def)
next
  case (Cons c s)
  show ?case
  proof
    assume "fractionTest (c # s)"
    then consider "matchFractionAt (c # s)" | "fractionTest s" by auto
    then show "\<exists>u t. c # s = u @ t \<and> matchFractionAt t"
    proof cases
      case 1
      then have "c # s = [] @ (c # s) \<and> matchFractionAt (c # s)" by simp
      then show ?thesis by blast
    next
      case 2
      then obtain u t where "s = u @ t" "matchFractionAt t" using Cons.IH by blast
      then have "c # s = (c # u) @ t \<and> matchFractionAt t" by simp
      then show ?thesis by blast
    qed
  next
    assume "\<exists>u t. c # s = u @ t \<and> matchFractionAt t"
    then obtain u t where ut: "c # s = u @ t" "matchFractionAt t" by blast
    show "fractionTest (c # s)"
    proof (cases u)
      case Nil
      then have "matchFractionAt (c # s)" using ut by simp
      then show ?thesis by simp
    next
      case (Cons a u')
      then have "s = u' @ t" using ut(1) by simp
      then have "fractionTest s" using Cons.IH ut(2) by blast
      then show ?thesis by simp
    qed
  qed
qed


section \<open>The line reassembler and the classifier\<close>

lemma reassemble_join:
  "js_join CR (fst (reassemble buffer data) @ [snd (reassemble buffer data)]) = buffer @ data"
  by (simp add: reassemble_def Let_def js_join_split)

lemma reassemble_no_CR:
  "list_all (\<lambda>l. CR \<notin> set l) (fst (reassemble buffer data) @ [snd (reassemble buffer data)])"
proof -
  have "fst (reassemble buffer data) @ [snd (reassemble buffer data)] = js_split CR (buffer @ data)"
    by (simp add: reassemble_def Let_def)
  then show ?thesis
    using js_split_no_sep [of _ CR "buffer @ data"] by (simp only: list_all_iff) blast
qed

lemma processOutput_complete:
  "filter (\<lambda>e. replaceLast e = None) (fst (processOutput buffer data type cid)) =
     map (lineEvent type cid) (filter (\<lambda>l. js_trim l \<noteq> []) (fst (reassemble buffer data)))"
proof -
  have "filter (\<lambda>e. replaceLast e = None) (map (lineEvent type cid) ls) = map (lineEvent type cid) ls"
    for ls
    by (induction ls) (simp_all add: lineEvent_def)
  then show ?thesis
    by (simp add: processOutput_def lastLineEvent_def split: prod.splits)
qed

lemma processOutput_buffer:
  "snd (processOutput buffer data type cid) = snd (reassemble buffer data)"
  by (simp add: processOutput_def split: prod.splits)

lemma reassemble_append_lines:
  "fst (reassemble buffer (d1 @ d2)) =
     fst (reassemble buffer d1) @ fst (reassemble (snd (reassemble buffer d1)) d2)"
  using butlast_split_append [of CR "buffer @ d1" d2]
  by (simp add: reassemble_def Let_def)

lemma reassemble_append_pending:
  "snd (reassemble buffer (d1 @ d2)) = snd (reassemble (snd (reassemble buffer d1)) d2)"
  using last_split_append [of CR "buffer @ d1" d2]
  by (simp add: reassemble_def Let_def)

text \<open>
  Claim C3. The reassembling part of \<^verbatim>\<open>processOutput\<close> is a function of the buffer and the
  chunk alone. It splits the accumulated text at the carriage returns: the complete lines
  and the pending part, joined by carriage returns, are the accumulated text, and none of
  them holds a carriage return. The complete-line events of the call are the non-blank
  complete lines; the last part is the returned buffer and is in no complete-line event.
  Feeding a chunk in two pieces, the second to the buffer left by the first, gives the same
  complete lines and the same pending part as feeding it at once: \<^verbatim>\<open>"a\rb\rc"\<close> gives the
  lines \<^verbatim>\<open>a\<close>, \<^verbatim>\<open>b\<close> and the pending part \<^verbatim>\<open>c\<close>, as \<^verbatim>\<open>"a\r"\<close>, \<^verbatim>\<open>"b\r"\<close>, \<^verbatim>\<open>"c"\<close> do.
\<close>

theorem reassemble_associative:
  "js_join CR (fst (reassemble buffer data) @ [snd (reassemble buffer data)]) = buffer @ data \<and>
   list_all (\<lambda>l. CR \<notin> set l) (fst (reassemble buffer data) @ [snd (reassemble buffer data)]) \<and>
   filter (\<lambda>e. replaceLast e = None) (fst (processOutput buffer data type cid)) =
     map (lineEvent type cid) (filter (\<lambda>l. js_trim l \<noteq> []) (fst (reassemble buffer data))) \<and>
   snd (processOutput buffer data type cid) = snd (reassemble buffer data) \<and>
   fst (reassemble buffer (d1 @ d2)) =
     fst (reassemble buffer d1) @ fst (reassemble (snd (reassemble buffer d1)) d2) \<and>
   snd (reassemble buffer (d1 @ d2)) = snd (reassemble (snd (reassemble buffer d1)) d2) \<and>
   reassemble [] (js ''a'' @ [CR] @ js ''b'' @ [CR] @ js ''c'') = ([js ''a'', js ''b''], js ''c'') \<and>
   reassemble [] (js ''a'' @ [CR]) = ([js ''a''], []) \<and>
   reassemble [] (js ''b'' @ [CR]) = ([js ''b''], []) \<and>
   reassemble [] (js ''c'') = ([], js ''c'')"
proof -
  have "reassemble [] (js ''a'' @ [CR] @ js ''b'' @ [CR] @ js ''c'') = ([js ''a'', js ''b''], js ''c'')"
    by (simp add: reassemble_def js_split_def js_def CR_def)
  moreover have "reassemble [] (js ''a'' @ [CR]) = ([js ''a''], [])"
    by (simp add: reassemble_def js_split_def js_def CR_def)
  moreover have "reassemble [] (js ''b'' @ [CR]) = ([js ''b''], [])"
    by (simp add: reassemble_def js_split_def js_def CR_def)
  moreover have "reassemble [] (js ''c'') = ([], js ''c'')"
    by (simp add: reassemble_def js_split_def js_def CR_def)
  ultimately show ?thesis
    using reassemble_join [of buffer data] reassemble_no_CR [of buffer data]
      processOutput_complete [of buffer data type cid] processOutput_buffer [of buffer data type cid]
      reassemble_append_lines [of buffer d1 d2] reassemble_append_pending [of buffer d1 d2]
    by (simp only: simp_thms)
qed

text \<open>
  Claim C4. A complete line is classified as progress exactly when it holds the light-shade
  block U+2591, the full block U+2588, a percent sign, three dots in a row, or an opening
  bracket, one or more digits, a slash, one or more digits and a closing bracket in a row.
  The four lines of the truth table are classified as the claim says.
\<close>

theorem progressLine_iff:
  "(progressLine line \<longleftrightarrow>
      0x2591 \<in> set line \<or> 0x2588 \<in> set line \<or> 0x25 \<in> set line \<or>
      (\<exists>u v. line = u @ js ''...'' @ v) \<or>
      (\<exists>u n m v. n \<noteq> [] \<and> m \<noteq> [] \<and> list_all isDigit n \<and> list_all isDigit m \<and>
         line = u @ [0x5B] @ n @ [0x2F] @ m @ [0x5D] @ v)) \<and>
   progressLine (js ''50%'') \<and>
   progressLine (js ''[3/10] step'') \<and>
   progressLine (js ''Cloning into 'x'...'') \<and>
   \<not> progressLine (js ''Build finished'')"
proof -
  have pct: "js ''%'' = [0x25]"
    by (simp add: js_def)
  have frac: "fractionTest line \<longleftrightarrow>
      (\<exists>u n m v. n \<noteq> [] \<and> m \<noteq> [] \<and> list_all isDigit n \<and> list_all isDigit m \<and>
         line = u @ [0x5B] @ n @ [0x2F] @ m @ [0x5D] @ v)"
    unfolding fractionTest_iff matchFractionAt_iff by blast
  have general: "progressLine line \<longleftrightarrow>
      0x2591 \<in> set line \<or> 0x2588 \<in> set line \<or> 0x25 \<in> set line \<or>
      (\<exists>u v. line = u @ js ''...'' @ v) \<or>
      (\<exists>u n m v. n \<noteq> [] \<and> m \<noteq> [] \<and> list_all isDigit n \<and> list_all isDigit m \<and>
         line = u @ [0x5B] @ n @ [0x2F] @ m @ [0x5D] @ v)"
    unfolding progressLine_def pct js_includes_single frac
    by (simp only: js_includes_iff)
  have e1: "progressLine (js ''50%'')"
    by (simp add: progressLine_def js_def)
  have e2: "progressLine (js ''[3/10] step'')"
    by (simp add: progressLine_def js_def matchFractionAt_def digitsThen_def isDigit_def)
  have e3: "progressLine (js ''Cloning into 'x'...'')"
    by (simp add: progressLine_def js_def)
  have e4: "\<not> progressLine (js ''Build finished'')"
    by (simp add: progressLine_def js_def matchFractionAt_def)
  show ?thesis
    using general e1 e2 e3 e4 by (simp only: simp_thms)
qed

theorem progressLine_iff_witness:
  "progressLine (js ''step [12/34]'')"
proof -
  have "js ''step [12/34]'' = js ''step '' @ [0x5B] @ js ''12'' @ [0x2F] @ js ''34'' @ [0x5D] @ []"
    by (simp add: js_def)
  moreover have "js ''12'' \<noteq> [] \<and> js ''34'' \<noteq> [] \<and> list_all isDigit (js ''12'') \<and> list_all isDigit (js ''34'')"
    by (simp add: js_def isDigit_def)
  ultimately show ?thesis
    using progressLine_iff [of "js ''step [12/34]''"] by blast
qed

section \<open>The repository name\<close>

text \<open>
  Claim C8. The repository name is the last part of the URL after a slash with the first
  occurrence of \<^verbatim>\<open>.git\<close> removed, wherever it stands: for a URL whose last segment is
  \<^verbatim>\<open>user.github.io\<close>, with or without the suffix \<^verbatim>\<open>.git\<close>, the name is not the segment with
  its suffix stripped. A segment with no other \<^verbatim>\<open>.git\<close> than its suffix loses the suffix.
\<close>

theorem repoNameOf_first_occurrence:
  "repoNameOf (js ''https://github.com/user/user.github.io.git'') = js ''userhub.io.git'' \<and>
   last (js_split 0x2F (js ''https://github.com/user/user.github.io'')) = js ''user.github.io'' \<and>
   repoNameOf (js ''https://github.com/user/user.github.io'') = js ''userhub.io'' \<and>
   repoNameOf (js ''https://github.com/user/app.git'') = js ''app''"
  by (simp add: repoNameOf_def js_split_def js_def)

section \<open>The registry\<close>

lemma stop_not_found:
  "map_of (activeProcesses s) cid = None \<Longrightarrow>
     stop cid s = (\<lparr>status = 404, success = False, body_commandId = None,
                     body_error = Some (js ''Process not found'')\<rparr>, s)"
  by (simp add: stop_def)

lemma stop_removes: "map_of (activeProcesses (snd (stop cid s))) cid = None"
  by (simp add: stop_def io_emit_def delete_conv' split: option.splits)

lemma stop_kills_target:
  "map_of (activeProcesses s) cid = Some p \<Longrightarrow>
     killed (snd (stop cid s)) = killed s @ [p] \<and>
     activeProcesses (snd (stop cid s)) = AList.delete cid (activeProcesses s) \<and>
     success (fst (stop cid s))"
  by (simp add: stop_def io_emit_def)

lemma sigterm_registry: "activeProcesses (sigterm s) = []"
  by (simp add: sigterm_def)

lemma sigterm_kills: "killed (sigterm s) = killed s @ map snd (activeProcesses s)"
  by (simp add: sigterm_def)

text \<open>
  Claim C9. After the \<^verbatim>\<open>SIGTERM\<close> listener the registry is empty, so the lookup of every
  command id finds nothing, and \<^verbatim>\<open>kill()\<close> was called on every child that was registered.
  A stop request for a command id that is not registered answers 404 "Process not found"
  and leaves the state as it was: nothing is killed and nothing emitted. After a stop
  request the id is not registered, so a second request for it is such a request.
\<close>

theorem sigterm_clears_registry:
  "map_of (activeProcesses (sigterm s)) cid = None \<and>
   activeProcesses (sigterm s) = [] \<and>
   killed (sigterm s) = killed s @ map snd (activeProcesses s) \<and>
   (map_of (activeProcesses s) cid = Some p \<longrightarrow> p \<in> set (killed (sigterm s))) \<and>
   (map_of (activeProcesses s) cid = None \<longrightarrow>
      stop cid s = (\<lparr>status = 404, success = False, body_commandId = None,
                      body_error = Some (js ''Process not found'')\<rparr>, s)) \<and>
   map_of (activeProcesses (snd (stop cid s))) cid = None"
proof -
  have "map_of (activeProcesses s) cid = Some p \<longrightarrow> p \<in> set (killed (sigterm s))"
  proof
    assume "map_of (activeProcesses s) cid = Some p"
    then have "(cid, p) \<in> set (activeProcesses s)"
      by (rule map_of_SomeD)
    then have "p \<in> snd ` set (activeProcesses s)"
      by force
    then show "p \<in> set (killed (sigterm s))"
      by (simp add: sigterm_kills)
  qed
  then show ?thesis
    using stop_not_found [of s cid] stop_removes [of cid s]
    by (simp add: sigterm_registry sigterm_kills)
qed

text \<open>
  The registry of \<open>exampleServer\<close>: a registered id, and one that is not.
\<close>

theorem sigterm_clears_registry_witness:
  "map_of (activeProcesses exampleServer) (js ''1700000000001'') = Some 4 \<and>
   4 \<in> set (killed (sigterm exampleServer)) \<and>
   map_of (activeProcesses (sigterm exampleServer)) (js ''1700000000001'') = None \<and>
   map_of (activeProcesses exampleServer) (js ''17'') = None \<and>
   fst (stop (js ''17'') exampleServer) =
     \<lparr>status = 404, success = False, body_commandId = None,
      body_error = Some (js ''Process not found'')\<rparr> \<and>
   snd (stop (js ''17'') exampleServer) = exampleServer"
proof -
  have a: "map_of (activeProcesses exampleServer) (js ''1700000000001'') = Some 4"
    by (simp add: exampleServer_def js_def)
  have b: "map_of (activeProcesses exampleServer) (js ''17'') = None"
    by (simp add: exampleServer_def js_def)
  show ?thesis
    using a b sigterm_clears_registry [of exampleServer "js ''1700000000001''" 4]
      sigterm_clears_registry [of exampleServer "js ''17''" 0]
    by simp
qed

section \<open>Blank text\<close>

lemma js_trim_empty_iff: "js_trim s = [] \<longleftrightarrow> list_all isWhiteSpace s"
proof -
  have "dropWhile isWhiteSpace s = [] \<longleftrightarrow> list_all isWhiteSpace s"
    by (simp add: list_all_iff)
  moreover have "dropWhile isWhiteSpace (rev (dropWhile isWhiteSpace s)) = [] \<longleftrightarrow>
      dropWhile isWhiteSpace s = []"
  proof
    assume a: "dropWhile isWhiteSpace (rev (dropWhile isWhiteSpace s)) = []"
    show "dropWhile isWhiteSpace s = []"
    proof (rule ccontr)
      assume b: "dropWhile isWhiteSpace s \<noteq> []"
      then have "\<not> isWhiteSpace (hd (dropWhile isWhiteSpace s))"
        by (rule hd_dropWhile)
      moreover have "hd (dropWhile isWhiteSpace s) \<in> set (rev (dropWhile isWhiteSpace s))"
        using b by simp
      ultimately show False
        using a by simp
    qed
  next
    assume h: "dropWhile isWhiteSpace s = []"
    show "dropWhile isWhiteSpace (rev (dropWhile isWhiteSpace s)) = []"
      unfolding h by simp
  qed
  ultimately show ?thesis
    by (simp add: js_trim_def)
qed

lemma js_trim_nonblank_iff: "js_trim s \<noteq> [] \<longleftrightarrow> (\<exists>c \<in> set s. \<not> isWhiteSpace c)"
  by (simp add: js_trim_empty_iff list_all_iff)

lemma js_trim_append_nonblank: "js_trim s \<noteq> [] \<Longrightarrow> js_trim (s @ t) \<noteq> []"
  by (auto simp: js_trim_nonblank_iff)

lemma processOutput_nonblank:
  "e \<in> set (fst (processOutput buffer data type cid)) \<Longrightarrow> js_trim (output_text e) \<noteq> []"
  by (auto simp: processOutput_def lineEvent_def lastLineEvent_def split: prod.splits if_splits)

lemma finishedEvent_nonblank: "js_trim (output_text (finishedEvent cid code)) \<noteq> []"
proof -
  have "js_trim (js ''Process finished with exit code: '') \<noteq> []"
    by (simp add: js_trim_nonblank_iff js_def isWhiteSpace_def)
  then show ?thesis
    by (simp add: finishedEvent_def js_trim_append_nonblank)
qed

lemma closeEvents_nonblank:
  "e \<in> set (closeEvents cid code r) \<Longrightarrow> js_trim (output_text e) \<noteq> []"
  using finishedEvent_nonblank [of cid code]
  by (auto simp: closeEvents_def flushEvent_def js_trim_append_nonblank split: if_splits)

section \<open>Runs of output chunks\<close>

lemma reassemble_no_data: "CR \<notin> set buffer \<Longrightarrow> reassemble buffer [] = ([], buffer)"
  by (simp add: reassemble_def js_split_no_sep_id)

lemma reassemble_pending_no_CR: "CR \<notin> set (snd (reassemble buffer data))"
proof -
  have "last (js_split CR (buffer @ data)) \<in> set (js_split CR (buffer @ data))"
    by simp
  then have "CR \<notin> set (last (js_split CR (buffer @ data)))"
    by (rule js_split_no_sep)
  then show ?thesis
    by (simp add: reassemble_def Let_def)
qed

lemma processOutput_line_events:
  "filter (isLineEventOf t') (map CommandOutput (fst (processOutput buffer data t cid))) =
     (if t = t'
      then map (CommandOutput \<circ> lineEvent t cid)
             (filter (\<lambda>l. js_trim l \<noteq> []) (fst (reassemble buffer data)))
      else [])"
proof -
  have a1: "filter (isLineEventOf u) (map (CommandOutput \<circ> lineEvent u cid) ls) =
      map (CommandOutput \<circ> lineEvent u cid) ls" for ls u
    by (induction ls) (simp_all add: lineEvent_def)
  have a2: "u \<noteq> t' \<Longrightarrow> filter (isLineEventOf t') (map (CommandOutput \<circ> lineEvent u cid) ls) = []"
    for ls u
    by (induction ls) (simp_all add: lineEvent_def)
  show ?thesis
    by (simp add: a1 a2 processOutput_def lastLineEvent_def split: prod.splits)
qed

lemma notify_StdoutData:
  "onStdoutData cid d (s, r) =
     (emitOutputs (fst (processOutput (stdoutBuffer r) d Stdout cid)) s,
      r\<lparr>stdoutBuffer := snd (processOutput (stdoutBuffer r) d Stdout cid)\<rparr>)"
  by (simp add: onStdoutData_def split: prod.splits)

lemma notify_StderrData:
  "onStderrData cid d (s, r) =
     (emitOutputs (fst (processOutput (stderrBuffer r) d Stderr cid)) s,
      r\<lparr>stderrBuffer := snd (processOutput (stderrBuffer r) d Stderr cid)\<rparr>)"
  by (simp add: onStderrData_def split: prod.splits)

lemma deliver_data_stdout:
  "list_all isData ds \<Longrightarrow> settled r = None \<Longrightarrow> CR \<notin> set (stdoutBuffer r) \<Longrightarrow>
     settled (snd (deliver cid ds (s, r))) = None \<and>
     stdoutBuffer (snd (deliver cid ds (s, r))) =
       snd (reassemble (stdoutBuffer r) (concat (stdoutChunks ds))) \<and>
     filter (isLineEventOf Stdout) (emitted (fst (deliver cid ds (s, r)))) =
       filter (isLineEventOf Stdout) (emitted s) @
       map (CommandOutput \<circ> lineEvent Stdout cid)
         (filter (\<lambda>l. js_trim l \<noteq> [])
            (fst (reassemble (stdoutBuffer r) (concat (stdoutChunks ds)))))"
proof (induction ds arbitrary: s r)
  case Nil
  then show ?case by (simp add: reassemble_no_data)
next
  case (Cons n ds)
  from Cons.prems have ds: "list_all isData ds" and n: "isData n" by simp_all
  show ?case
  proof (cases n)
    case (StdoutData d)
    define p where "p = snd (processOutput (stdoutBuffer r) d Stdout cid)"
    define s1 where "s1 = emitOutputs (fst (processOutput (stdoutBuffer r) d Stdout cid)) s"
    define r1 where "r1 = r\<lparr>stdoutBuffer := p\<rparr>"
    have step: "deliver cid (n # ds) (s, r) = deliver cid ds (s1, r1)"
      using Cons.prems(2) by (simp add: StdoutData notify_StdoutData s1_def r1_def p_def Let_def)
    have pb: "p = snd (reassemble (stdoutBuffer r) d)"
      by (simp add: p_def processOutput_buffer)
    have r1s: "settled r1 = None" "stdoutBuffer r1 = p"
      using Cons.prems(2) by (simp_all add: r1_def)
    have noCR: "CR \<notin> set (stdoutBuffer r1)"
      by (simp add: r1s pb reassemble_pending_no_CR)
    note IH = Cons.IH [OF ds r1s(1) noCR, of s1]
    have e1: "filter (isLineEventOf Stdout) (emitted s1) =
        filter (isLineEventOf Stdout) (emitted s) @
        map (CommandOutput \<circ> lineEvent Stdout cid)
          (filter (\<lambda>l. js_trim l \<noteq> []) (fst (reassemble (stdoutBuffer r) d)))"
      by (simp add: s1_def emitOutputs_def processOutput_line_events)
    have chunks: "concat (stdoutChunks (n # ds)) = d @ concat (stdoutChunks ds)"
      by (simp add: StdoutData)
    show ?thesis
      unfolding step chunks reassemble_append_lines reassemble_append_pending
      using IH e1 by (simp add: r1s pb)
  next
    case (StderrData d)
    define s1 where "s1 = emitOutputs (fst (processOutput (stderrBuffer r) d Stderr cid)) s"
    define r1 where "r1 = r\<lparr>stderrBuffer := snd (processOutput (stderrBuffer r) d Stderr cid)\<rparr>"
    have step: "deliver cid (n # ds) (s, r) = deliver cid ds (s1, r1)"
      using Cons.prems(2) by (simp add: StderrData notify_StderrData s1_def r1_def Let_def)
    have r1s: "settled r1 = None" "stdoutBuffer r1 = stdoutBuffer r"
      using Cons.prems(2) by (simp_all add: r1_def)
    have noCR: "CR \<notin> set (stdoutBuffer r1)"
      using Cons.prems(3) by (simp add: r1s)
    note IH = Cons.IH [OF ds r1s(1) noCR, of s1]
    have e1: "filter (isLineEventOf Stdout) (emitted s1) = filter (isLineEventOf Stdout) (emitted s)"
      by (simp add: s1_def emitOutputs_def processOutput_line_events)
    have chunks: "concat (stdoutChunks (n # ds)) = concat (stdoutChunks ds)"
      by (simp add: StderrData)
    show ?thesis
      unfolding step chunks using IH e1 by (simp add: r1s)
  next
    case (Close code)
    then show ?thesis using n by simp
  next
    case (SpawnError m)
    then show ?thesis using n by simp
  qed
qed

lemma deliver_data_stderr:
  "list_all isData ds \<Longrightarrow> settled r = None \<Longrightarrow> CR \<notin> set (stderrBuffer r) \<Longrightarrow>
     settled (snd (deliver cid ds (s, r))) = None \<and>
     stderrBuffer (snd (deliver cid ds (s, r))) =
       snd (reassemble (stderrBuffer r) (concat (stderrChunks ds))) \<and>
     filter (isLineEventOf Stderr) (emitted (fst (deliver cid ds (s, r)))) =
       filter (isLineEventOf Stderr) (emitted s) @
       map (CommandOutput \<circ> lineEvent Stderr cid)
         (filter (\<lambda>l. js_trim l \<noteq> [])
            (fst (reassemble (stderrBuffer r) (concat (stderrChunks ds)))))"
proof (induction ds arbitrary: s r)
  case Nil
  then show ?case by (simp add: reassemble_no_data)
next
  case (Cons n ds)
  from Cons.prems have ds: "list_all isData ds" and n: "isData n" by simp_all
  show ?case
  proof (cases n)
    case (StderrData d)
    define p where "p = snd (processOutput (stderrBuffer r) d Stderr cid)"
    define s1 where "s1 = emitOutputs (fst (processOutput (stderrBuffer r) d Stderr cid)) s"
    define r1 where "r1 = r\<lparr>stderrBuffer := p\<rparr>"
    have step: "deliver cid (n # ds) (s, r) = deliver cid ds (s1, r1)"
      using Cons.prems(2) by (simp add: StderrData notify_StderrData s1_def r1_def p_def Let_def)
    have pb: "p = snd (reassemble (stderrBuffer r) d)"
      by (simp add: p_def processOutput_buffer)
    have r1s: "settled r1 = None" "stderrBuffer r1 = p"
      using Cons.prems(2) by (simp_all add: r1_def)
    have noCR: "CR \<notin> set (stderrBuffer r1)"
      by (simp add: r1s pb reassemble_pending_no_CR)
    note IH = Cons.IH [OF ds r1s(1) noCR, of s1]
    have e1: "filter (isLineEventOf Stderr) (emitted s1) =
        filter (isLineEventOf Stderr) (emitted s) @
        map (CommandOutput \<circ> lineEvent Stderr cid)
          (filter (\<lambda>l. js_trim l \<noteq> []) (fst (reassemble (stderrBuffer r) d)))"
      by (simp add: s1_def emitOutputs_def processOutput_line_events)
    have chunks: "concat (stderrChunks (n # ds)) = d @ concat (stderrChunks ds)"
      by (simp add: StderrData)
    show ?thesis
      unfolding step chunks reassemble_append_lines reassemble_append_pending
      using IH e1 by (simp add: r1s pb)
  next
    case (StdoutData d)
    define s1 where "s1 = emitOutputs (fst (processOutput (stdoutBuffer r) d Stdout cid)) s"
    define r1 where "r1 = r\<lparr>stdoutBuffer := snd (processOutput (stdoutBuffer r) d Stdout cid)\<rparr>"
    have step: "deliver cid (n # ds) (s, r) = deliver cid ds (s1, r1)"
      using Cons.prems(2) by (simp add: StdoutData notify_StdoutData s1_def r1_def Let_def)
    have r1s: "settled r1 = None" "stderrBuffer r1 = stderrBuffer r"
      using Cons.prems(2) by (simp_all add: r1_def)
    have noCR: "CR \<notin> set (stderrBuffer r1)"
      using Cons.prems(3) by (simp add: r1s)
    note IH = Cons.IH [OF ds r1s(1) noCR, of s1]
    have e1: "filter (isLineEventOf Stderr) (emitted s1) = filter (isLineEventOf Stderr) (emitted s)"
      by (simp add: s1_def emitOutputs_def processOutput_line_events)
    have chunks: "concat (stderrChunks (n # ds)) = concat (stderrChunks ds)"
      by (simp add: StdoutData)
    show ?thesis
      unfolding step chunks using IH e1 by (simp add: r1s)
  next
    case (Close code)
    then show ?thesis using n by simp
  next
    case (SpawnError m)
    then show ?thesis using n by simp
  qed
qed

lemma processOutput_cr_free:
  "e \<in> set (fst (processOutput buffer data type cid)) \<Longrightarrow> CR \<notin> set (output_text e)"
proof -
  assume e: "e \<in> set (fst (processOutput buffer data type cid))"
  have parts: "l \<in> set (butlast (js_split CR (buffer @ data))) \<or> l = last (js_split CR (buffer @ data))
      \<Longrightarrow> CR \<notin> set l" for l
    using js_split_no_sep [of l CR "buffer @ data"] in_set_butlastD [of l "js_split CR (buffer @ data)"]
      last_in_set [of "js_split CR (buffer @ data)"]
    by auto
  from e obtain l where "output_text e = l"
    and "l \<in> set (butlast (js_split CR (buffer @ data))) \<or> l = last (js_split CR (buffer @ data))"
    by (auto simp: processOutput_def reassemble_def Let_def lineEvent_def lastLineEvent_def
        split: if_splits)
  then show ?thesis
    using parts by simp
qed

lemma deliver_data_clean:
  "list_all isData ds \<Longrightarrow>
     filter (\<lambda>m. \<not> (nonblankEmission m \<and> crFreeEmission m))
       (emitted (fst (deliver cid ds (s, r)))) =
     filter (\<lambda>m. \<not> (nonblankEmission m \<and> crFreeEmission m)) (emitted s)"
proof (induction ds arbitrary: s r)
  case Nil
  then show ?case by simp
next
  case (Cons n ds)
  from Cons.prems have ds: "list_all isData ds" and n: "isData n" by simp_all
  have clean: "filter (\<lambda>m. \<not> (nonblankEmission m \<and> crFreeEmission m))
      (map CommandOutput (fst (processOutput buffer data type cid))) = []" for buffer data type
    using processOutput_nonblank [of _ buffer data type cid]
      processOutput_cr_free [of _ buffer data type cid]
    by (auto simp: filter_empty_conv)
  obtain s1 r1 where sr: "notify cid n (s, r) = (s1, r1)"
    by (cases "notify cid n (s, r)")
  have "filter (\<lambda>m. \<not> (nonblankEmission m \<and> crFreeEmission m)) (emitted s1) =
      filter (\<lambda>m. \<not> (nonblankEmission m \<and> crFreeEmission m)) (emitted s)"
  proof (cases n)
    case (StdoutData d)
    then show ?thesis
      using sr clean [of "stdoutBuffer r" d Stdout] by (auto simp: notify_StdoutData emitOutputs_def)
  next
    case (StderrData d)
    then show ?thesis
      using sr clean [of "stderrBuffer r" d Stderr] by (auto simp: notify_StderrData emitOutputs_def)
  next
    case (Close code)
    then show ?thesis using n by simp
  next
    case (SpawnError m)
    then show ?thesis using n by simp
  qed
  then show ?case
    using Cons.IH [OF ds, of s1 r1] by (simp add: sr)
qed

lemma newRun_fields:
  "settled newRun = None" "stdoutBuffer newRun = []" "stderrBuffer newRun = []"
  by (simp_all add: newRun_def)

lemma reassemble_from_empty:
  "reassemble [] raw = (butlast (js_split CR raw), last (js_split CR raw))"
  by (simp add: reassemble_def Let_def)

text \<open>
  Claim C1, as amended. For every sequence of output chunks of the two streams, in any
  interleaving: the raw text of a stream is its parts between carriage returns, joined by
  carriage returns; the complete-line events of the stream (the events of its type that
  do not set \<^verbatim>\<open>replaceLast\<close>) emitted while the chunks arrive are the non-blank complete
  lines of the raw text, each once and in order; and the close listener then emits the
  pending part of each stream in one event if it is not blank, and in none if it is.
  No event emitted while the chunks arrive, with or without \<^verbatim>\<open>replaceLast\<close>, has a blank
  text or holds a carriage return: blank lines and the carriage returns are in no event.
\<close>

theorem complete_lines_emitted_once:
  "list_all isData ds \<Longrightarrow>
   js_join CR (js_split CR (concat (stdoutChunks ds))) = concat (stdoutChunks ds) \<and>
   js_join CR (js_split CR (concat (stderrChunks ds))) = concat (stderrChunks ds) \<and>
   filter (isLineEventOf Stdout) (emitted (fst (deliver cid ds (s, newRun)))) =
     filter (isLineEventOf Stdout) (emitted s) @
     map (CommandOutput \<circ> lineEvent Stdout cid)
       (filter (\<lambda>l. js_trim l \<noteq> []) (butlast (js_split CR (concat (stdoutChunks ds))))) \<and>
   filter (isLineEventOf Stderr) (emitted (fst (deliver cid ds (s, newRun)))) =
     filter (isLineEventOf Stderr) (emitted s) @
     map (CommandOutput \<circ> lineEvent Stderr cid)
       (filter (\<lambda>l. js_trim l \<noteq> []) (butlast (js_split CR (concat (stderrChunks ds))))) \<and>
   closeEvents cid code (snd (deliver cid ds (s, newRun))) =
     (if js_trim (last (js_split CR (concat (stdoutChunks ds)))) \<noteq> []
      then [flushEvent Stdout cid (last (js_split CR (concat (stdoutChunks ds))))] else []) @
     (if js_trim (last (js_split CR (concat (stderrChunks ds)))) \<noteq> []
      then [flushEvent Stderr cid (last (js_split CR (concat (stderrChunks ds))))] else []) @
     [finishedEvent cid code] \<and>
   filter (\<lambda>m. \<not> (nonblankEmission m \<and> crFreeEmission m))
       (emitted (fst (deliver cid ds (s, newRun)))) =
     filter (\<lambda>m. \<not> (nonblankEmission m \<and> crFreeEmission m)) (emitted s)"
proof -
  assume ds: "list_all isData ds"
  have out: "stdoutBuffer (snd (deliver cid ds (s, newRun))) = last (js_split CR (concat (stdoutChunks ds)))"
    and outl: "filter (isLineEventOf Stdout) (emitted (fst (deliver cid ds (s, newRun)))) =
     filter (isLineEventOf Stdout) (emitted s) @
     map (CommandOutput \<circ> lineEvent Stdout cid)
       (filter (\<lambda>l. js_trim l \<noteq> []) (butlast (js_split CR (concat (stdoutChunks ds)))))"
    using deliver_data_stdout [OF ds, of newRun cid s]
    by (simp_all add: newRun_fields reassemble_from_empty)
  have err: "stderrBuffer (snd (deliver cid ds (s, newRun))) = last (js_split CR (concat (stderrChunks ds)))"
    and errl: "filter (isLineEventOf Stderr) (emitted (fst (deliver cid ds (s, newRun)))) =
     filter (isLineEventOf Stderr) (emitted s) @
     map (CommandOutput \<circ> lineEvent Stderr cid)
       (filter (\<lambda>l. js_trim l \<noteq> []) (butlast (js_split CR (concat (stderrChunks ds)))))"
    using deliver_data_stderr [OF ds, of newRun cid s]
    by (simp_all add: newRun_fields reassemble_from_empty)
  have cl: "closeEvents cid code (snd (deliver cid ds (s, newRun))) =
     (if js_trim (last (js_split CR (concat (stdoutChunks ds)))) \<noteq> []
      then [flushEvent Stdout cid (last (js_split CR (concat (stdoutChunks ds))))] else []) @
     (if js_trim (last (js_split CR (concat (stderrChunks ds)))) \<noteq> []
      then [flushEvent Stderr cid (last (js_split CR (concat (stderrChunks ds))))] else []) @
     [finishedEvent cid code]"
    unfolding closeEvents_def out err by (rule refl)
  show ?thesis
    using outl errl cl deliver_data_clean [OF ds, of cid s newRun]
    by (simp only: js_join_split simp_thms)
qed

lemmas run_simps =
  onStdoutData_def onStderrData_def onClose_def onError_def closeEvents_def processOutput_def
  reassemble_def js_split_def js_trim_def isWhiteSpace_def emitOutputs_def io_emit_def
  settle_def newRun_def server0_def CR_def LF_def Let_def

text \<open>
  A run with chunks on both streams, a line completed by a later chunk and a blank line.
\<close>

theorem complete_lines_emitted_once_witness:
  "list_all isData [StdoutData (js ''ab''), StderrData (js ''x'' @ [CR] @ js ''y''),
                    StdoutData (js ''c'' @ [CR] @ js '' '' @ [CR] @ js ''d'')] \<and>
   filter (isLineEventOf Stdout)
     (emitted (fst (deliver (js ''7'')
        [StdoutData (js ''ab''), StderrData (js ''x'' @ [CR] @ js ''y''),
         StdoutData (js ''c'' @ [CR] @ js '' '' @ [CR] @ js ''d'')] (server0, newRun)))) =
     [CommandOutput (lineEvent Stdout (js ''7'') (js ''abc''))] \<and>
   filter (isLineEventOf Stderr)
     (emitted (fst (deliver (js ''7'')
        [StdoutData (js ''ab''), StderrData (js ''x'' @ [CR] @ js ''y''),
         StdoutData (js ''c'' @ [CR] @ js '' '' @ [CR] @ js ''d'')] (server0, newRun)))) =
     [CommandOutput (lineEvent Stderr (js ''7'') (js ''x''))] \<and>
   closeEvents (js ''7'') (Some 0)
     (snd (deliver (js ''7'')
        [StdoutData (js ''ab''), StderrData (js ''x'' @ [CR] @ js ''y''),
         StdoutData (js ''c'' @ [CR] @ js '' '' @ [CR] @ js ''d'')] (server0, newRun))) =
     [flushEvent Stdout (js ''7'') (js ''d''), flushEvent Stderr (js ''7'') (js ''y''),
      finishedEvent (js ''7'') (Some 0)]"
proof -
  have d: "list_all isData [StdoutData (js ''ab''), StderrData (js ''x'' @ [CR] @ js ''y''),
                    StdoutData (js ''c'' @ [CR] @ js '' '' @ [CR] @ js ''d'')]"
    by simp
  have e: "emitted server0 = []"
    by (simp add: server0_def)
  show ?thesis
    using complete_lines_emitted_once [OF d, of "js ''7''" server0 "Some 0"]
    unfolding e
    by (simp add: js_split_def js_trim_def isWhiteSpace_def js_def CR_def)
qed

text \<open>
  Claim C1 as stated fails. The chunk \<^verbatim>\<open>ab\<close> followed by the close of the child is emitted
  twice: by \<^verbatim>\<open>processOutput\<close> as a pending line, and by the close listener. In the chunk
  \<^verbatim>\<open>" \rx\r"\<close> the blank line and the carriage returns are in no event.
\<close>

theorem partial_line_emitted_twice:
  "emitted (fst (deliver (js ''7'') [StdoutData (js ''ab''), Close (Some 0)] (server0, newRun))) =
     [CommandOutput (lastLineEvent Stdout (js ''7'') (js ''ab'')),
      CommandOutput (flushEvent Stdout (js ''7'') (js ''ab'')),
      CommandOutput (finishedEvent (js ''7'') (Some 0))] \<and>
   output_text (lastLineEvent Stdout (js ''7'') (js ''ab'')) = js ''ab'' \<and>
   output_text (flushEvent Stdout (js ''7'') (js ''ab'')) = js ''ab'' @ [LF] \<and>
   emitted (fst (deliver (js ''7'') [StdoutData (js '' '' @ [CR] @ js ''x'' @ [CR]), Close (Some 0)]
     (server0, newRun))) =
     [CommandOutput (lineEvent Stdout (js ''7'') (js ''x'')),
      CommandOutput (finishedEvent (js ''7'') (Some 0))]"
  by (simp add: run_simps js_def lastLineEvent_def flushEvent_def)

section \<open>Pending parts and the close listener\<close>

lemma processOutput_partial:
  "filter (\<lambda>e. replaceLast e = Some True) (fst (processOutput buffer data type cid)) =
     (if js_trim (snd (processOutput buffer data type cid)) \<noteq> []
      then [\<lparr>commandId = cid, output_text = snd (processOutput buffer data type cid),
             outputType = type, isProgress = Some True, replaceLast = Some True\<rparr>]
      else [])"
proof -
  have "filter (\<lambda>e. replaceLast e = Some True) (map (lineEvent type cid) ls) = []" for ls
    by (induction ls) (simp_all add: lineEvent_def)
  then show ?thesis
    by (simp add: processOutput_def lastLineEvent_def split: prod.splits)
qed

lemma closeEvents_stdout:
  "filter (\<lambda>e. outputType e = Stdout) (closeEvents cid code r) =
     (if js_trim (stdoutBuffer r) \<noteq> []
      then [\<lparr>commandId = cid, output_text = stdoutBuffer r @ [LF], outputType = Stdout,
             isProgress = None, replaceLast = None\<rparr>]
      else [])"
  by (simp add: closeEvents_def flushEvent_def finishedEvent_def)

lemma closeEvents_stderr:
  "filter (\<lambda>e. outputType e = Stderr) (closeEvents cid code r) =
     (if js_trim (stderrBuffer r) \<noteq> []
      then [\<lparr>commandId = cid, output_text = stderrBuffer r @ [LF], outputType = Stderr,
             isProgress = None, replaceLast = None\<rparr>]
      else [])"
  by (simp add: closeEvents_def flushEvent_def finishedEvent_def)

lemma closeEvents_flags:
  "list_all (\<lambda>e. isProgress e = None \<and> replaceLast e = None) (closeEvents cid code r)"
  by (simp add: closeEvents_def flushEvent_def finishedEvent_def)

text \<open>
  Claim C2, as amended. After every chunk \<^verbatim>\<open>processOutput\<close> emits the pending part, if it
  is not blank, in one event with \<^verbatim>\<open>isProgress\<close> and \<^verbatim>\<open>replaceLast\<close> true. The close
  listener emits the buffer of each stream at most once: once, followed by a line feed,
  if it is not blank, and not at all if it is empty or blank; no event of the close
  listener sets \<^verbatim>\<open>isProgress\<close> or \<^verbatim>\<open>replaceLast\<close>.
\<close>

theorem partial_buffer_events:
  "filter (\<lambda>e. replaceLast e = Some True) (fst (processOutput buffer data type cid)) =
     (if js_trim (snd (processOutput buffer data type cid)) \<noteq> []
      then [\<lparr>commandId = cid, output_text = snd (processOutput buffer data type cid),
             outputType = type, isProgress = Some True, replaceLast = Some True\<rparr>]
      else []) \<and>
   filter (\<lambda>e. outputType e = Stdout) (closeEvents cid code r) =
     (if js_trim (stdoutBuffer r) \<noteq> []
      then [\<lparr>commandId = cid, output_text = stdoutBuffer r @ [LF], outputType = Stdout,
             isProgress = None, replaceLast = None\<rparr>]
      else []) \<and>
   filter (\<lambda>e. outputType e = Stderr) (closeEvents cid code r) =
     (if js_trim (stderrBuffer r) \<noteq> []
      then [\<lparr>commandId = cid, output_text = stderrBuffer r @ [LF], outputType = Stderr,
             isProgress = None, replaceLast = None\<rparr>]
      else []) \<and>
   list_all (\<lambda>e. isProgress e = None \<and> replaceLast e = None) (closeEvents cid code r) \<and>
   emitted (fst (onClose cid code (s, r))) = emitted s @ map CommandOutput (closeEvents cid code r)"
proof -
  have "emitted (fst (onClose cid code (s, r))) = emitted s @ map CommandOutput (closeEvents cid code r)"
    by (simp add: onClose_def emitOutputs_def Let_def)
  then show ?thesis
    using processOutput_partial [of buffer data type cid] closeEvents_stdout [of cid code r]
      closeEvents_stderr [of cid code r] closeEvents_flags [of cid code r]
    by (simp only: simp_thms)
qed

theorem partial_buffer_events_witness:
  "filter (\<lambda>e. replaceLast e = Some True) (fst (processOutput (js ''Down'') (js ''loading'') Stdout (js ''7''))) =
     [\<lparr>commandId = js ''7'', output_text = js ''Downloading'', outputType = Stdout,
       isProgress = Some True, replaceLast = Some True\<rparr>] \<and>
   filter (\<lambda>e. outputType e = Stdout)
     (closeEvents (js ''7'') (Some 0) \<lparr>stdoutBuffer = js ''Downloading'', stderrBuffer = js ''  '', settled = None\<rparr>) =
     [\<lparr>commandId = js ''7'', output_text = js ''Downloading'' @ [LF], outputType = Stdout,
       isProgress = None, replaceLast = None\<rparr>] \<and>
   filter (\<lambda>e. outputType e = Stderr)
     (closeEvents (js ''7'') (Some 0) \<lparr>stdoutBuffer = js ''Downloading'', stderrBuffer = js ''  '', settled = None\<rparr>) = []"
  using partial_buffer_events [of "js ''Down''" "js ''loading''" Stdout "js ''7''" "Some 0"
      "\<lparr>stdoutBuffer = js ''Downloading'', stderrBuffer = js ''  '', settled = None\<rparr>" server0]
  by (simp add: processOutput_def reassemble_def js_split_def js_trim_def isWhiteSpace_def js_def
      CR_def Let_def)

text \<open>
  Claim C2 as stated fails. The pending part \<^verbatim>\<open>Downloading\<close> is emitted when its chunk
  arrives, before the child closes; the close listener emits it again without
  \<^verbatim>\<open>isProgress\<close> and \<^verbatim>\<open>replaceLast\<close>; and for an empty buffer the close listener emits no
  event for the buffer.
\<close>

theorem partial_buffer_emitted_before_close:
  "emitted (fst (deliver (js ''7'') [StderrData (js ''Downloading'')] (server0, newRun))) =
     [CommandOutput \<lparr>commandId = js ''7'', output_text = js ''Downloading'', outputType = Stderr,
        isProgress = Some True, replaceLast = Some True\<rparr>] \<and>
   emitted (fst (deliver (js ''7'') [StderrData (js ''Downloading''), Close (Some 0)] (server0, newRun))) =
     [CommandOutput \<lparr>commandId = js ''7'', output_text = js ''Downloading'', outputType = Stderr,
        isProgress = Some True, replaceLast = Some True\<rparr>,
      CommandOutput \<lparr>commandId = js ''7'', output_text = js ''Downloading'' @ [LF], outputType = Stderr,
        isProgress = None, replaceLast = None\<rparr>,
      CommandOutput (finishedEvent (js ''7'') (Some 0))] \<and>
   emitted (fst (deliver (js ''7'') [Close (Some 0)] (server0, newRun))) =
     [CommandOutput (finishedEvent (js ''7'') (Some 0))]"
  by (simp add: run_simps js_def lastLineEvent_def flushEvent_def)

lemma js_split_subset: "l \<in> set (js_split sep s) \<Longrightarrow> set l \<subseteq> set s"
proof (induction s arbitrary: l)
  case Nil
  then show ?case by simp
next
  case (Cons c s)
  then show ?case
    by (cases "js_split sep s") (fastforce simp: js_split_Cons split: if_splits)+
qed

lemma processOutput_blank:
  assumes "list_all isWhiteSpace (buffer @ data)"
  shows "fst (processOutput buffer data type cid) = []"
proof -
  have blank: "js_trim l = []" if "l \<in> set (js_split CR (buffer @ data))" for l
  proof -
    have "set l \<subseteq> set (buffer @ data)"
      using that by (rule js_split_subset)
    then have "list_all isWhiteSpace l"
      using assms unfolding list_all_iff by blast
    then show ?thesis
      by (simp add: js_trim_empty_iff)
  qed
  have "filter (\<lambda>line. js_trim line \<noteq> []) (butlast (js_split CR (buffer @ data))) = []"
    unfolding filter_empty_conv using blank by (meson in_set_butlastD)
  moreover have "js_trim (last (js_split CR (buffer @ data))) = []"
    using blank by simp
  ultimately show ?thesis
    by (simp add: processOutput_def reassemble_def Let_def)
qed

lemma closeEvents_blank:
  "js_trim (stdoutBuffer r) = [] \<Longrightarrow> js_trim (stderrBuffer r) = [] \<Longrightarrow>
     closeEvents cid code r = [finishedEvent cid code]"
  by (simp add: closeEvents_def)

lemma notify_nonblank:
  "list_all nonblankEmission (emitted s) \<Longrightarrow>
     list_all nonblankEmission (emitted (fst (notify cid n (s, r))))"
proof (cases n)
  case (StdoutData d)
  assume "list_all nonblankEmission (emitted s)"
  then show ?thesis
    using processOutput_nonblank [of _ "stdoutBuffer r" d Stdout cid]
    by (auto simp: StdoutData notify_StdoutData emitOutputs_def list_all_iff)
next
  case (StderrData d)
  assume "list_all nonblankEmission (emitted s)"
  then show ?thesis
    using processOutput_nonblank [of _ "stderrBuffer r" d Stderr cid]
    by (auto simp: StderrData notify_StderrData emitOutputs_def list_all_iff)
next
  case (Close code)
  assume "list_all nonblankEmission (emitted s)"
  then show ?thesis
    using closeEvents_nonblank [of _ cid code r]
    by (auto simp: Close onClose_def emitOutputs_def Let_def list_all_iff)
next
  case (SpawnError m)
  assume "list_all nonblankEmission (emitted s)"
  then show ?thesis
    by (simp add: SpawnError onError_def)
qed

lemma deliver_nonblank:
  "list_all nonblankEmission (emitted s) \<Longrightarrow>
     list_all nonblankEmission (emitted (fst (deliver cid ns (s, r))))"
proof (induction ns arbitrary: s r)
  case Nil
  then show ?case by simp
next
  case (Cons n ns)
  obtain s1 r1 where sr: "notify cid n (s, r) = (s1, r1)"
    by (cases "notify cid n (s, r)")
  have "list_all nonblankEmission (emitted s1)"
    using notify_nonblank [OF Cons.prems, of cid n r] by (simp add: sr)
  then have "list_all nonblankEmission (emitted (fst (deliver cid ns (s1, r1))))"
    by (rule Cons.IH)
  then show ?case
    using \<open>list_all nonblankEmission (emitted s1)\<close> by (simp add: sr Let_def)
qed

text \<open>
  Claim C10. No listener of \<^verbatim>\<open>executeCommand\<close> emits an event whose text is blank: if no
  emission so far is blank, none is after any sequence of reports. Every event of a call
  of \<^verbatim>\<open>processOutput\<close> and every event of the close listener has a text that is not blank.
  A call of \<^verbatim>\<open>processOutput\<close> whose accumulated text is blank emits nothing, and the close
  listener emits nothing for blank buffers but the event of the exit code.
\<close>

theorem blank_text_never_emitted:
  "(list_all nonblankEmission (emitted s) \<longrightarrow>
      list_all nonblankEmission (emitted (fst (deliver cid ns (s, r))))) \<and>
   (list_all isWhiteSpace (buffer @ data) \<longrightarrow> fst (processOutput buffer data type cid) = []) \<and>
   (js_trim (stdoutBuffer r) = [] \<and> js_trim (stderrBuffer r) = [] \<longrightarrow>
      closeEvents cid code r = [finishedEvent cid code]) \<and>
   list_all (\<lambda>e. js_trim (output_text e) \<noteq> []) (fst (processOutput buffer data type cid)) \<and>
   list_all (\<lambda>e. js_trim (output_text e) \<noteq> []) (closeEvents cid code r)"
  using deliver_nonblank [of s cid ns r] processOutput_blank [of buffer data type cid]
    closeEvents_blank [of r cid code] processOutput_nonblank [of _ buffer data type cid]
    closeEvents_nonblank [of _ cid code r]
  by (simp add: list_all_iff)

theorem blank_text_never_emitted_witness:
  "list_all nonblankEmission (emitted server0) \<and>
   list_all nonblankEmission
     (emitted (fst (deliver (js ''7'')
        [StdoutData (js ''  '' @ [CR] @ js ''ok'' @ [CR] @ js '' ''), Close (Some 0)] (server0, newRun)))) \<and>
   list_all isWhiteSpace (js '' '' @ js '' '' @ [CR, 0x09]) \<and>
   fst (processOutput (js '' '') (js '' '' @ [CR, 0x09]) Stdout (js ''7'')) = [] \<and>
   closeEvents (js ''7'') (Some 0) \<lparr>stdoutBuffer = js '' '', stderrBuffer = [], settled = None\<rparr> =
     [finishedEvent (js ''7'') (Some 0)]"
proof -
  have a: "list_all nonblankEmission (emitted server0)"
    by (simp add: server0_def)
  have b: "list_all isWhiteSpace (js '' '' @ js '' '' @ [CR, 0x09])"
    by (simp add: isWhiteSpace_def js_def CR_def)
  have c: "js_trim (stdoutBuffer \<lparr>stdoutBuffer = js '' '', stderrBuffer = [], settled = None\<rparr>) = [] \<and>
      js_trim (stderrBuffer \<lparr>stdoutBuffer = js '' '', stderrBuffer = [], settled = None\<rparr>) = []"
    by (simp add: js_trim_def isWhiteSpace_def js_def)
  show ?thesis
    using a b c
      blank_text_never_emitted [of server0 "js ''7''"
        "[StdoutData (js ''  '' @ [CR] @ js ''ok'' @ [CR] @ js '' ''), Close (Some 0)]" newRun
        "js '' ''" "js '' '' @ [CR, 0x09]" Stdout "Some 0"]
      blank_text_never_emitted [of server0 "js ''7''" "[]"
        "\<lparr>stdoutBuffer = js '' '', stderrBuffer = [], settled = None\<rparr>"
        "js '' ''" "js '' '' @ [CR, 0x09]" Stdout "Some 0"]
    by blast
qed

section \<open>Settling the promise\<close>

lemma notify_settled:
  "settled (snd (notify cid n (s, r))) =
     (case settled r of None \<Rightarrow> settles n | Some v \<Rightarrow> Some v)"
  by (cases n)
    (simp_all add: notify_StdoutData notify_StderrData onClose_def onError_def settle_def Let_def
      split: option.splits)

lemma deliver_settled:
  "settled (snd (deliver cid ns (s, r))) =
     (case settled r of None \<Rightarrow> outcome ns | Some v \<Rightarrow> Some v)"
proof (induction ns arbitrary: s r)
  case Nil
  then show ?case by (simp split: option.splits)
next
  case (Cons n ns)
  obtain s1 r1 where sr: "notify cid n (s, r) = (s1, r1)"
    by (cases "notify cid n (s, r)")
  have r1: "settled r1 = (case settled r of None \<Rightarrow> settles n | Some v \<Rightarrow> Some v)"
    using notify_settled [of cid n s r] by (simp add: sr)
  show ?case
    using Cons.IH [of s1 r1] r1 by (simp add: sr split: option.splits)
qed

lemma deliverUntilSettled_outcome:
  "settled r = None \<Longrightarrow> settled (snd (fst (deliverUntilSettled cid ns (s, r)))) = outcome ns"
proof (induction ns arbitrary: s r)
  case Nil
  then show ?case by simp
next
  case (Cons n ns)
  obtain s1 r1 where sr: "notify cid n (s, r) = (s1, r1)"
    by (cases "notify cid n (s, r)")
  have r1: "settled r1 = settles n"
    using notify_settled [of cid n s r] Cons.prems by (simp add: sr)
  show ?case
  proof (cases "settles n")
    case None
    then show ?thesis
      using Cons.IH [of r1 s1] r1 by (simp add: sr Let_def)
  next
    case (Some v)
    then show ?thesis
      using r1 by (simp add: sr Let_def)
  qed
qed

lemma notify_spawned: "spawned (fst (notify cid n (s, r))) = spawned s"
  by (cases n)
    (simp_all add: notify_StdoutData notify_StderrData onClose_def onError_def emitOutputs_def
      Let_def)

lemma notify_killed: "killed (fst (notify cid n (s, r))) = killed s"
  by (cases n)
    (simp_all add: notify_StdoutData notify_StderrData onClose_def onError_def emitOutputs_def
      Let_def)

lemma notify_undelivered: "undelivered (fst (notify cid n (s, r))) = undelivered s"
  by (cases n)
    (simp_all add: notify_StdoutData notify_StderrData onClose_def onError_def emitOutputs_def
      Let_def)

lemma notify_finished:
  "filter isFinished (emitted (fst (notify cid n (s, r)))) = filter isFinished (emitted s)"
proof -
  have "filter isFinished (map CommandOutput evs) = []" for evs
    by (induction evs) simp_all
  then show ?thesis
    by (cases n)
      (simp_all add: notify_StdoutData notify_StderrData onClose_def onError_def emitOutputs_def
        Let_def)
qed

lemma deliverUntilSettled_frame:
  "spawned (fst (fst (deliverUntilSettled cid ns (s, r)))) = spawned s \<and>
   killed (fst (fst (deliverUntilSettled cid ns (s, r)))) = killed s \<and>
   undelivered (fst (fst (deliverUntilSettled cid ns (s, r)))) = undelivered s \<and>
   filter isFinished (emitted (fst (fst (deliverUntilSettled cid ns (s, r))))) =
     filter isFinished (emitted s)"
proof (induction ns arbitrary: s r)
  case Nil
  then show ?case by simp
next
  case (Cons n ns)
  obtain s1 r1 where sr: "notify cid n (s, r) = (s1, r1)"
    by (cases "notify cid n (s, r)")
  have one: "spawned s1 = spawned s" "killed s1 = killed s" "undelivered s1 = undelivered s"
    "filter isFinished (emitted s1) = filter isFinished (emitted s)"
    using notify_spawned [of cid n s r] notify_killed [of cid n s r]
      notify_undelivered [of cid n s r] notify_finished [of cid n s r]
    by (simp_all add: sr)
  show ?case
    using Cons.IH [of s1 r1] one by (simp add: sr Let_def)
qed

lemma processOutput_not_terminal:
  "type = Stdout \<or> type = Stderr \<Longrightarrow>
     filter isTerminal (map CommandOutput (fst (processOutput buffer data type cid))) = []"
proof -
  assume t: "type = Stdout \<or> type = Stderr"
  have "filter isTerminal (map (CommandOutput \<circ> lineEvent type cid) ls) = []" for ls
    using t by (induction ls) (auto simp: lineEvent_def)
  then show ?thesis
    using t by (auto simp: processOutput_def lastLineEvent_def split: prod.splits)
qed

lemma closeEvents_terminal:
  "filter isTerminal (map CommandOutput (closeEvents cid code r)) =
     [CommandOutput (finishedEvent cid code)]"
  by (simp add: closeEvents_def flushEvent_def finishedEvent_def)

lemma notify_terminal:
  "filter isTerminal (emitted (fst (notify cid n (s, r)))) =
     filter isTerminal (emitted s) @ map (CommandOutput \<circ> finishedEvent cid) (closeCodes [n])"
proof (cases n)
  case (StdoutData d)
  then show ?thesis
    using processOutput_not_terminal [of Stdout "stdoutBuffer r" d cid]
    by (simp add: notify_StdoutData emitOutputs_def)
next
  case (StderrData d)
  then show ?thesis
    using processOutput_not_terminal [of Stderr "stderrBuffer r" d cid]
    by (simp add: notify_StderrData emitOutputs_def)
next
  case (Close code)
  then show ?thesis
    by (simp add: onClose_def emitOutputs_def Let_def closeEvents_terminal)
next
  case (SpawnError m)
  then show ?thesis
    by (simp add: onError_def)
qed

lemma closeCodes_Cons: "closeCodes (n # ns) = closeCodes [n] @ closeCodes ns"
  by (cases n) simp_all

lemma deliver_terminal:
  "filter isTerminal (emitted (fst (deliver cid ns (s, r)))) =
     filter isTerminal (emitted s) @ map (CommandOutput \<circ> finishedEvent cid) (closeCodes ns)"
proof (induction ns arbitrary: s r)
  case Nil
  then show ?case by simp
next
  case (Cons n ns)
  obtain s1 r1 where sr: "notify cid n (s, r) = (s1, r1)"
    by (cases "notify cid n (s, r)")
  have one: "filter isTerminal (emitted s1) =
      filter isTerminal (emitted s) @ map (CommandOutput \<circ> finishedEvent cid) (closeCodes [n])"
    using notify_terminal [of cid n s r] by (simp add: sr)
  show ?case
    using Cons.IH [of s1 r1] one closeCodes_Cons [of n ns] by (simp add: sr)
qed

lemma notify_registry_kept:
  "map_of (activeProcesses s) cid = None \<Longrightarrow>
     map_of (activeProcesses (fst (notify cid n (s, r)))) cid = None"
  by (cases n)
    (simp_all add: notify_StdoutData notify_StderrData onClose_def onError_def emitOutputs_def
      Let_def delete_conv')

lemma deliver_registry_kept:
  "map_of (activeProcesses s) cid = None \<Longrightarrow>
     map_of (activeProcesses (fst (deliver cid ns (s, r)))) cid = None"
proof (induction ns arbitrary: s r)
  case Nil
  then show ?case by simp
next
  case (Cons n ns)
  obtain s1 r1 where sr: "notify cid n (s, r) = (s1, r1)"
    by (cases "notify cid n (s, r)")
  have "map_of (activeProcesses s1) cid = None"
    using notify_registry_kept [OF Cons.prems, of n r] by (simp add: sr)
  then show ?case
    using Cons.IH [of s1 r1] by (simp add: sr)
qed

lemma onClose_removes: "map_of (activeProcesses (fst (onClose cid code (s, r)))) cid = None"
  by (simp add: onClose_def emitOutputs_def Let_def delete_conv')

lemma deliver_registry:
  "Close code \<in> set ns \<Longrightarrow> map_of (activeProcesses (fst (deliver cid ns (s, r)))) cid = None"
proof (induction ns arbitrary: s r)
  case Nil
  then show ?case by simp
next
  case (Cons n ns)
  obtain s1 r1 where sr: "notify cid n (s, r) = (s1, r1)"
    by (cases "notify cid n (s, r)")
  show ?case
  proof (cases "n = Close code")
    case True
    have "map_of (activeProcesses s1) cid = None"
      using onClose_removes [of cid code s r] sr by (simp add: True)
    then show ?thesis
      using deliver_registry_kept [of s1 cid ns r1] by (simp add: sr)
  next
    case False
    then have "Close code \<in> set ns"
      using Cons.prems by simp
    then show ?thesis
      using Cons.IH [of s1 r1] by (simp add: sr)
  qed
qed

lemma deliver_data_frame:
  "list_all isData ds \<Longrightarrow> settled r = None \<Longrightarrow>
     settled (snd (deliver cid ds (s, r))) = None \<and>
     activeProcesses (fst (deliver cid ds (s, r))) = activeProcesses s \<and>
     undelivered (fst (deliver cid ds (s, r))) = undelivered s \<and>
     filter isTerminal (emitted (fst (deliver cid ds (s, r)))) = filter isTerminal (emitted s)"
proof (induction ds arbitrary: s r)
  case Nil
  then show ?case by simp
next
  case (Cons n ds)
  from Cons.prems have ds: "list_all isData ds" and n: "isData n" by simp_all
  obtain s1 r1 where sr: "notify cid n (s, r) = (s1, r1)"
    by (cases "notify cid n (s, r)")
  have one: "settled r1 = None \<and> activeProcesses s1 = activeProcesses s \<and>
      undelivered s1 = undelivered s \<and>
      filter isTerminal (emitted s1) = filter isTerminal (emitted s)"
  proof (cases n)
    case (StdoutData d)
    then show ?thesis
      using sr Cons.prems(2) processOutput_not_terminal [of Stdout "stdoutBuffer r" d cid]
      by (auto simp: notify_StdoutData emitOutputs_def)
  next
    case (StderrData d)
    then show ?thesis
      using sr Cons.prems(2) processOutput_not_terminal [of Stderr "stderrBuffer r" d cid]
      by (auto simp: notify_StderrData emitOutputs_def)
  next
    case (Close code)
    then show ?thesis using n by simp
  next
    case (SpawnError m)
    then show ?thesis using n by simp
  qed
  show ?case
    using Cons.IH [OF ds, of r1 s1] one by (simp add: sr)
qed

lemma deliverUntilSettled_split:
  "list_all isData ds \<Longrightarrow> settled r = None \<Longrightarrow> settles n \<noteq> None \<Longrightarrow>
     deliverUntilSettled cid (ds @ n # rest) (s, r) = (notify cid n (deliver cid ds (s, r)), rest)"
proof (induction ds arbitrary: s r)
  case Nil
  then show ?case
    using notify_settled [of cid n s r] by (auto simp: Let_def)
next
  case (Cons d ds)
  from Cons.prems have ds: "list_all isData ds" and d: "isData d" by simp_all
  obtain s1 r1 where sr: "notify cid d (s, r) = (s1, r1)"
    by (cases "notify cid d (s, r)")
  have "settles d = None"
    using d by (cases d) simp_all
  then have r1: "settled r1 = None"
    using notify_settled [of cid d s r] Cons.prems(2) by (simp add: sr)
  show ?case
    using Cons.IH [OF ds r1 Cons.prems(3), of s1] r1 by (simp add: sr Let_def)
qed

section \<open>A run of executeCommand\<close>

lemma executeCommand_run:
  "\<exists>s3. spawned s3 = spawned s @ [(command, cwd)] \<and>
        activeProcesses s3 = AList.update cid (length (spawned s)) (activeProcesses s) \<and>
        killed s3 = killed s \<and>
        undelivered s3 = undelivered s \<and>
        emitted s3 = emitted s @ descriptionEvents cid description \<and>
        executeCommand E command cwd cid description s =
          (settled (snd (fst (deliverUntilSettled cid (child E (length (spawned s))) (s3, newRun)))),
           (fst (fst (deliverUntilSettled cid (child E (length (spawned s))) (s3, newRun))))
             \<lparr>undelivered := undelivered s @
                [(cid, snd (fst (deliverUntilSettled cid (child E (length (spawned s))) (s3, newRun))),
                  snd (deliverUntilSettled cid (child E (length (spawned s))) (s3, newRun)))]\<rparr>)"
proof -
  define s1 where "s1 = (case description of
                  None \<Rightarrow> s
                | Some d \<Rightarrow>
                    if d \<noteq> [] then
                      io_emit (CommandOutput
                        \<lparr>commandId = cid, output_text = d @ [LF], outputType = System,
                         isProgress = None, replaceLast = None\<rparr>) s
                    else s)"
  define s3 where "s3 = s1\<lparr>spawned := spawned s1 @ [(command, cwd)],
    activeProcesses := AList.update cid (length (spawned s1)) (activeProcesses s1)\<rparr>"
  have s1: "spawned s1 = spawned s" "activeProcesses s1 = activeProcesses s" "killed s1 = killed s"
    "undelivered s1 = undelivered s"
    "emitted s1 = emitted s @ descriptionEvents cid description"
    by (simp_all add: s1_def descriptionEvents_def io_emit_def split: option.splits)
  have s3: "spawned s3 = spawned s @ [(command, cwd)]"
    "activeProcesses s3 = AList.update cid (length (spawned s)) (activeProcesses s)"
    "killed s3 = killed s" "undelivered s3 = undelivered s"
    "emitted s3 = emitted s @ descriptionEvents cid description"
    by (simp_all add: s3_def s1)
  have u: "undelivered (fst (fst (deliverUntilSettled cid (child E (length (spawned s))) (s3, newRun)))) =
      undelivered s"
    using deliverUntilSettled_frame [of cid "child E (length (spawned s))" s3 newRun]
    by (simp add: s3)
  have "executeCommand E command cwd cid description s =
          (settled (snd (fst (deliverUntilSettled cid (child E (length (spawned s))) (s3, newRun)))),
           (fst (fst (deliverUntilSettled cid (child E (length (spawned s))) (s3, newRun))))
             \<lparr>undelivered := undelivered s @
                [(cid, snd (fst (deliverUntilSettled cid (child E (length (spawned s))) (s3, newRun))),
                  snd (deliverUntilSettled cid (child E (length (spawned s))) (s3, newRun)))]\<rparr>)"
    unfolding executeCommand_def s1_def [symmetric] Let_def u [symmetric]
    by (simp add: s3_def s1 split: prod.splits)
  then show ?thesis
    using s3 by blast
qed

lemma descriptionEvents_filters:
  "filter isTerminal (descriptionEvents cid description) = []"
  "filter isFinished (descriptionEvents cid description) = []"
  by (simp_all add: descriptionEvents_def split: option.splits)

lemma executeCommand_outcome:
  "fst (executeCommand E command cwd cid description s) = outcome (child E (length (spawned s)))"
proof -
  obtain s3 where "fst (executeCommand E command cwd cid description s) =
      settled (snd (fst (deliverUntilSettled cid (child E (length (spawned s))) (s3, newRun))))"
    using executeCommand_run [of s command cwd cid description E] by force
  then show ?thesis
    by (simp add: deliverUntilSettled_outcome newRun_fields)
qed

lemma executeCommand_frame:
  "spawned (snd (executeCommand E command cwd cid description s)) = spawned s @ [(command, cwd)] \<and>
   killed (snd (executeCommand E command cwd cid description s)) = killed s \<and>
   filter isFinished (emitted (snd (executeCommand E command cwd cid description s))) =
     filter isFinished (emitted s)"
proof -
  obtain s3 where s3: "spawned s3 = spawned s @ [(command, cwd)]" "killed s3 = killed s"
    "emitted s3 = emitted s @ descriptionEvents cid description"
    and run: "snd (executeCommand E command cwd cid description s) =
           (fst (fst (deliverUntilSettled cid (child E (length (spawned s))) (s3, newRun))))
             \<lparr>undelivered := undelivered s @
                [(cid, snd (fst (deliverUntilSettled cid (child E (length (spawned s))) (s3, newRun))),
                  snd (deliverUntilSettled cid (child E (length (spawned s))) (s3, newRun)))]\<rparr>"
    using executeCommand_run [of s command cwd cid description E] by force
  show ?thesis
    using deliverUntilSettled_frame [of cid "child E (length (spawned s))" s3 newRun]
    by (simp add: run s3 descriptionEvents_filters)
qed

lemma onClose_emitted:
  "emitted (fst (onClose cid code (s, r))) = emitted s @ map CommandOutput (closeEvents cid code r)"
  by (simp add: onClose_def emitOutputs_def Let_def)

lemma onClose_settled:
  "settled r = None \<Longrightarrow>
     settled (snd (onClose cid code (s, r))) =
       Some (if code = Some 0 then Resolved 0
             else Rejected (js ''Command failed with exit code '' @ codeToString code))"
  by (simp add: onClose_def settle_def Let_def)

lemma onError_server: "fst (onError cid message (s, r)) = s"
  by (simp add: onError_def)

lemma onError_settled:
  "settled r = None \<Longrightarrow> settled (snd (onError cid message (s, r))) = Some (Rejected message)"
  by (simp add: onError_def settle_def)

lemma executeCommand_close:
  assumes ds: "list_all isData ds"
    and ch: "child E (length (spawned s)) = ds @ Close code # rest"
  shows "fst (executeCommand E command cwd cid description s) =
           Some (if code = Some 0 then Resolved 0
                 else Rejected (js ''Command failed with exit code '' @ codeToString code))"
    and "last (emitted (snd (executeCommand E command cwd cid description s))) =
           CommandOutput (finishedEvent cid code)"
    and "filter isTerminal (emitted (snd (executeCommand E command cwd cid description s))) =
           filter isTerminal (emitted s) @ [CommandOutput (finishedEvent cid code)]"
    and "map_of (activeProcesses (snd (executeCommand E command cwd cid description s))) cid = None"
proof -
  obtain s3 where s3: "emitted s3 = emitted s @ descriptionEvents cid description"
    and run: "executeCommand E command cwd cid description s =
          (settled (snd (fst (deliverUntilSettled cid (child E (length (spawned s))) (s3, newRun)))),
           (fst (fst (deliverUntilSettled cid (child E (length (spawned s))) (s3, newRun))))
             \<lparr>undelivered := undelivered s @
                [(cid, snd (fst (deliverUntilSettled cid (child E (length (spawned s))) (s3, newRun))),
                  snd (deliverUntilSettled cid (child E (length (spawned s))) (s3, newRun)))]\<rparr>)"
    using executeCommand_run [of s command cwd cid description E] by blast
  obtain s4 r4 where d: "deliver cid ds (s3, newRun) = (s4, r4)"
    by (cases "deliver cid ds (s3, newRun)")
  have r4: "settled r4 = None"
    and s4: "filter isTerminal (emitted s4) = filter isTerminal (emitted s3)"
    using deliver_data_frame [OF ds, of newRun cid s3] by (simp_all add: d newRun_fields)
  have all: "deliverUntilSettled cid (child E (length (spawned s))) (s3, newRun) =
      (onClose cid code (s4, r4), rest)"
    unfolding ch using deliverUntilSettled_split [OF ds, of newRun "Close code" cid rest s3]
    by (simp add: d newRun_fields)
  show "fst (executeCommand E command cwd cid description s) =
           Some (if code = Some 0 then Resolved 0
                 else Rejected (js ''Command failed with exit code '' @ codeToString code))"
    unfolding run all using onClose_settled [OF r4, of cid code s4] by simp
  show "last (emitted (snd (executeCommand E command cwd cid description s))) =
           CommandOutput (finishedEvent cid code)"
    unfolding run all by (simp add: onClose_emitted closeEvents_def)
  show "filter isTerminal (emitted (snd (executeCommand E command cwd cid description s))) =
           filter isTerminal (emitted s) @ [CommandOutput (finishedEvent cid code)]"
    unfolding run all
    by (simp add: onClose_emitted closeEvents_terminal s4 s3 descriptionEvents_filters)
  show "map_of (activeProcesses (snd (executeCommand E command cwd cid description s))) cid = None"
    unfolding run all by (simp add: onClose_removes)
qed

lemma drain_single:
  "undelivered s = [] \<Longrightarrow>
     afterwards (s\<lparr>undelivered := [(cid, r, ns)]\<rparr>) = fst (deliver cid ns (s, r))"
proof -
  assume "undelivered s = []"
  then have "s\<lparr>undelivered := []\<rparr> = s"
    by (cases s) simp
  then show ?thesis
    by (simp add: afterwards_def)
qed

lemma executeCommand_error:
  assumes ds: "list_all isData ds"
    and ch: "child E (length (spawned s)) = ds @ SpawnError message # rest"
  shows "fst (executeCommand E command cwd cid description s) = Some (Rejected message)"
    and "filter isTerminal (emitted (snd (executeCommand E command cwd cid description s))) =
           filter isTerminal (emitted s)"
    and "ds = [] \<Longrightarrow> emitted (snd (executeCommand E command cwd cid description s)) =
           emitted s @ descriptionEvents cid description"
    and "undelivered s = [] \<Longrightarrow>
           filter isTerminal
             (emitted (afterwards (snd (executeCommand E command cwd cid description s)))) =
           filter isTerminal (emitted s) @
           map (CommandOutput \<circ> finishedEvent cid) (closeCodes rest)"
    and "undelivered s = [] \<Longrightarrow> Close code \<in> set rest \<Longrightarrow>
           map_of (activeProcesses
             (afterwards (snd (executeCommand E command cwd cid description s)))) cid = None"
proof -
  obtain s3 where s3: "emitted s3 = emitted s @ descriptionEvents cid description"
    "undelivered s3 = undelivered s"
    and run: "executeCommand E command cwd cid description s =
          (settled (snd (fst (deliverUntilSettled cid (child E (length (spawned s))) (s3, newRun)))),
           (fst (fst (deliverUntilSettled cid (child E (length (spawned s))) (s3, newRun))))
             \<lparr>undelivered := undelivered s @
                [(cid, snd (fst (deliverUntilSettled cid (child E (length (spawned s))) (s3, newRun))),
                  snd (deliverUntilSettled cid (child E (length (spawned s))) (s3, newRun)))]\<rparr>)"
    using executeCommand_run [of s command cwd cid description E] by blast
  obtain s4 r4 where d: "deliver cid ds (s3, newRun) = (s4, r4)"
    by (cases "deliver cid ds (s3, newRun)")
  have r4: "settled r4 = None"
    and s4: "filter isTerminal (emitted s4) = filter isTerminal (emitted s3)"
    and u4: "undelivered s4 = undelivered s3"
    using deliver_data_frame [OF ds, of newRun cid s3] by (simp_all add: d newRun_fields)
  have all: "deliverUntilSettled cid (child E (length (spawned s))) (s3, newRun) =
      (onError cid message (s4, r4), rest)"
    unfolding ch using deliverUntilSettled_split [OF ds, of newRun "SpawnError message" cid rest s3]
    by (simp add: d newRun_fields)
  show "fst (executeCommand E command cwd cid description s) = Some (Rejected message)"
    unfolding run all using onError_settled [OF r4, of cid message s4] by simp
  show "filter isTerminal (emitted (snd (executeCommand E command cwd cid description s))) =
           filter isTerminal (emitted s)"
    unfolding run all by (simp add: onError_server s4 s3 descriptionEvents_filters)
  show "ds = [] \<Longrightarrow> emitted (snd (executeCommand E command cwd cid description s)) =
           emitted s @ descriptionEvents cid description"
    unfolding run all using d s3(1) by (auto simp: onError_server)
  have later: "afterwards (snd (executeCommand E command cwd cid description s)) =
      fst (deliver cid rest (s4, snd (onError cid message (s4, r4))))" if "undelivered s = []"
    unfolding run all using that drain_single [of s4 cid "snd (onError cid message (s4, r4))" rest]
    by (simp add: onError_server u4 s3)
  show "undelivered s = [] \<Longrightarrow>
           filter isTerminal
             (emitted (afterwards (snd (executeCommand E command cwd cid description s)))) =
           filter isTerminal (emitted s) @
           map (CommandOutput \<circ> finishedEvent cid) (closeCodes rest)"
    by (simp add: later deliver_terminal s4 s3 descriptionEvents_filters)
  show "undelivered s = [] \<Longrightarrow> Close code \<in> set rest \<Longrightarrow>
           map_of (activeProcesses
             (afterwards (snd (executeCommand E command cwd cid description s)))) cid = None"
    by (simp add: later deliver_registry)
qed

section \<open>Close and spawn error\<close>




section \<open>Leaving the registry\<close>

text \<open>
  Claim C7. The close listener and the stop route remove the command id from the registry.
  Whatever a child reports, once a close is among its reports the command id is not
  registered when all reports have reached the listeners. So it is for a command that
  completes, at the moment the promise is settled, and for one whose spawn fails, when the
  close that follows the error has reached the close listener.
\<close>

theorem registry_entry_removed:
  "map_of (activeProcesses (fst (onClose cid code (s, r)))) cid = None \<and>
   map_of (activeProcesses (snd (stop cid s))) cid = None \<and>
   (Close code \<in> set ns \<longrightarrow>
      map_of (activeProcesses (fst (deliver cid ns (s, r)))) cid = None) \<and>
   (list_all isData ds \<and> child E (length (spawned s)) = ds @ Close code # rest \<longrightarrow>
      map_of (activeProcesses (snd (executeCommand E command cwd cid description s))) cid = None) \<and>
   (undelivered s = [] \<and> list_all isData ds \<and>
    child E (length (spawned s)) = ds @ SpawnError message # rest \<and> Close code \<in> set rest \<longrightarrow>
      map_of (activeProcesses
        (afterwards (snd (executeCommand E command cwd cid description s)))) cid = None)"
  using onClose_removes [of cid code s r] stop_removes [of cid s]
    deliver_registry [of code ns cid s r]
    executeCommand_close(4) [of ds E s code rest command cwd cid description]
    executeCommand_error(5) [of ds E s message rest code command cwd cid description]
  by blast

text \<open>
  A deployment whose first child cannot be spawned: when the close that follows the error
  has reached the listener, the command id is not registered.
\<close>

theorem registry_entry_removed_witness:
  "Close (Some (- 2)) \<in> set [SpawnError (js ''spawn /bin/sh ENOENT''), Close (Some (- 2))] \<and>
   map_of (activeProcesses (fst (deliver (js ''7'')
     [SpawnError (js ''spawn /bin/sh ENOENT''), Close (Some (- 2))]
     (server0\<lparr>activeProcesses := [(js ''7'', 0)]\<rparr>, newRun)))) (js ''7'') = None \<and>
   child failingSpawnEnv (length (spawned server0)) =
     [] @ SpawnError (js ''spawn /bin/sh ENOENT'') # [Close (Some (- 2))] \<and>
   map_of (activeProcesses (afterwards (snd (executeCommand failingSpawnEnv (js ''git fetch --all'')
     (js ''/srv/repos/app'') (js ''7'') None server0)))) (js ''7'') = None \<and>
   fst (deploy failingSpawnEnv (js ''https://github.com/user/app.git'') (js ''main'') server0) =
     Some \<lparr>status = 500, success = False, body_commandId = None,
            body_error = Some (js ''spawn /bin/sh ENOENT'')\<rparr> \<and>
   map_of (activeProcesses (afterwards (snd (deploy failingSpawnEnv
     (js ''https://github.com/user/app.git'') (js ''main'') server0)))) (js ''7'') = None"
proof -
  have f: "child failingSpawnEnv (length (spawned server0)) =
      [] @ SpawnError (js ''spawn /bin/sh ENOENT'') # [Close (Some (- 2))]"
    by (simp add: failingSpawnEnv_def)
  have u: "undelivered server0 = []"
    by (simp add: server0_def)
  have m: "Close (Some (- 2)) \<in> set [SpawnError (js ''spawn /bin/sh ENOENT''), Close (Some (- 2))]"
    "Close (Some (- 2)) \<in> set [Close (Some (- 2))]" "list_all isData []"
    by simp_all
  have d: "fst (deploy failingSpawnEnv (js ''https://github.com/user/app.git'') (js ''main'') server0) =
     Some \<lparr>status = 500, success = False, body_commandId = None,
            body_error = Some (js ''spawn /bin/sh ENOENT'')\<rparr> \<and>
   map_of (activeProcesses (afterwards (snd (deploy failingSpawnEnv
     (js ''https://github.com/user/app.git'') (js ''main'') server0)))) (js ''7'') = None"
    by (simp add: deploy_def executeCommand_def catchBlock_def repoNameOf_def failingSpawnEnv_def
        afterwards_def run_simps js_def)
  show ?thesis
    using f u m d
      registry_entry_removed [of "js ''7''" "Some (- 2)"
        "server0\<lparr>activeProcesses := [(js ''7'', 0)]\<rparr>" newRun
        "[SpawnError (js ''spawn /bin/sh ENOENT''), Close (Some (- 2))]" "[]" failingSpawnEnv
        "[Close (Some (- 2))]" "js ''git fetch --all''" "js ''/srv/repos/app''" None
        "js ''spawn /bin/sh ENOENT''"]
      registry_entry_removed [of "js ''7''" "Some (- 2)" server0 newRun
        "[SpawnError (js ''spawn /bin/sh ENOENT''), Close (Some (- 2))]" "[]" failingSpawnEnv
        "[Close (Some (- 2))]" "js ''git fetch --all''" "js ''/srv/repos/app''" None
        "js ''spawn /bin/sh ENOENT''"]
    by simp
qed

section \<open>The sequencer\<close>

lemma await_resolved: "fst x = Some (Resolved c) \<Longrightarrow> await cid x rest = rest (snd x)"
  by (cases x) simp

lemma await_rejected:
  "fst x = Some (Rejected message) \<Longrightarrow> await cid x rest = catchBlock cid message (snd x)"
  by (cases x) simp

lemma catchBlock_facts:
  "fst (catchBlock cid message s) =
     Some \<lparr>status = 500, success = False, body_commandId = None, body_error = Some message\<rparr>"
  "spawned (snd (catchBlock cid message s)) = spawned s"
  "emitted (snd (catchBlock cid message s)) =
     emitted s @
     [CommandOutput \<lparr>commandId = cid, output_text = js ''Error: '' @ message @ [LF],
        outputType = Stderr, isProgress = None, replaceLast = None\<rparr>,
      CommandFinished cid 1]"
  by (simp_all add: catchBlock_def io_emit_def Let_def)

lemma deploy_stops:
  assumes k: "k < 4"
    and ok: "\<forall>j<k. outcome (child E (length (spawned s) + j)) = Some (Resolved 0)"
    and bad: "outcome (child E (length (spawned s) + k)) = Some (Rejected message)"
  shows "\<exists>s'. deploy E gitUrl branch s = catchBlock (dateNow E) message s' \<and>
           spawned s' = spawned s @ take (Suc k) (deployCommands E gitUrl branch) \<and>
           filter isFinished (emitted s') = filter isFinished (emitted s)"
proof -
  define cid where "cid = dateNow E"
  define repoPath where "repoPath = pathJoin E (reposDir E) (repoNameOf gitUrl)"
  define s0 where "s0 = io_emit (CommandOutput
                 \<lparr>commandId = cid,
                  output_text = js ''Starting deployment process for '' @ repoNameOf gitUrl @ js ''...'' @ [LF],
                  outputType = System, isProgress = None, replaceLast = None\<rparr>) s"
  define c1 where "c1 = (if \<not> existsSync E repoPath then (js ''git clone '' @ gitUrl, reposDir E)
          else (js ''git fetch --all'', repoPath))"
  define x1 where "x1 = (if \<not> existsSync E repoPath then
              executeCommand E (js ''git clone '' @ gitUrl) (reposDir E) cid
                (Some (js ''Cloning repository '' @ gitUrl @ js ''...'')) s0
            else
              executeCommand E (js ''git fetch --all'') repoPath cid
                (Some (js ''Repository exists, fetching latest changes...'')) s0)"
  define x2 where "x2 = executeCommand E
                 (js ''git checkout '' @ branch @ js '' && git pull origin '' @ branch)
                 repoPath cid (Some (js ''Checking out branch: '' @ branch)) (snd x1)"
  define x3 where "x3 = executeCommand E (js ''npm install'') repoPath cid
                    (Some (js ''Installing dependencies...'')) (snd x2)"
  define x4 where "x4 = executeCommand E (js ''npm run build'') repoPath cid
                       (Some (js ''Building the application...'')) (snd x3)"
  have cmds: "deployCommands E gitUrl branch =
      [c1, (js ''git checkout '' @ branch @ js '' && git pull origin '' @ branch, repoPath),
       (js ''npm install'', repoPath), (js ''npm run build'', repoPath)]"
    by (simp add: deployCommands_def c1_def repoPath_def Let_def)
  have s0: "spawned s0 = spawned s" "filter isFinished (emitted s0) = filter isFinished (emitted s)"
    by (simp_all add: s0_def io_emit_def)
  have x1: "fst x1 = outcome (child E (length (spawned s)))"
    "spawned (snd x1) = spawned s @ [c1]"
    "filter isFinished (emitted (snd x1)) = filter isFinished (emitted s)"
    by (simp_all add: x1_def c1_def executeCommand_outcome executeCommand_frame s0)
  have x2: "fst x2 = outcome (child E (length (spawned s) + 1))"
    "spawned (snd x2) = spawned s @
       [c1, (js ''git checkout '' @ branch @ js '' && git pull origin '' @ branch, repoPath)]"
    "filter isFinished (emitted (snd x2)) = filter isFinished (emitted s)"
    by (simp_all add: x2_def executeCommand_outcome executeCommand_frame x1)
  have x3: "fst x3 = outcome (child E (length (spawned s) + 2))"
    "spawned (snd x3) = spawned s @
       [c1, (js ''git checkout '' @ branch @ js '' && git pull origin '' @ branch, repoPath),
        (js ''npm install'', repoPath)]"
    "filter isFinished (emitted (snd x3)) = filter isFinished (emitted s)"
    by (simp_all add: x3_def executeCommand_outcome executeCommand_frame x2)
  have x4: "fst x4 = outcome (child E (length (spawned s) + 3))"
    "spawned (snd x4) = spawned s @ deployCommands E gitUrl branch"
    "filter isFinished (emitted (snd x4)) = filter isFinished (emitted s)"
    by (simp_all add: x4_def executeCommand_outcome executeCommand_frame x3 cmds numeral_3_eq_3)
  have dep: "deploy E gitUrl branch s =
      await cid x1 (\<lambda>s1. await cid
              (executeCommand E
                 (js ''git checkout '' @ branch @ js '' && git pull origin '' @ branch)
                 repoPath cid (Some (js ''Checking out branch: '' @ branch)) s1)
              (\<lambda>s2. await cid
                 (executeCommand E (js ''npm install'') repoPath cid
                    (Some (js ''Installing dependencies...'')) s2)
                 (\<lambda>s3. await cid
                    (executeCommand E (js ''npm run build'') repoPath cid
                       (Some (js ''Building the application...'')) s3)
                    (\<lambda>s4. (Some \<lparr>status = 200, success = True, body_commandId = Some cid,
                                   body_error = None\<rparr>,
                            io_emit (CommandFinished cid 0) s4)))))"
    unfolding deploy_def Let_def cid_def x1_def repoPath_def s0_def by (rule refl)
  from k consider "k = 0" | "k = 1" | "k = 2" | "k = 3"
    by linarith
  then show ?thesis
  proof cases
    case 1
    have "fst x1 = Some (Rejected message)"
      using bad by (simp add: x1 1)
    then have "deploy E gitUrl branch s = catchBlock cid message (snd x1)"
      unfolding dep by (rule await_rejected)
    then show ?thesis
      using x1 by (auto simp: 1 cmds cid_def)
  next
    case 2
    have r1: "fst x1 = Some (Resolved 0)"
      using ok by (simp add: x1 2)
    have "fst x2 = Some (Rejected message)"
      using bad by (simp add: x2 2)
    then have "deploy E gitUrl branch s = catchBlock cid message (snd x2)"
      unfolding dep await_resolved [OF r1] x2_def [symmetric] by (rule await_rejected)
    then show ?thesis
      using x2 by (auto simp: 2 cid_def cmds)
  next
    case 3
    have r1: "fst x1 = Some (Resolved 0)"
      using ok [rule_format, of 0] by (simp add: x1 3)
    have r2: "fst x2 = Some (Resolved 0)"
      using ok [rule_format, of 1] by (simp add: x2 3)
    have "fst x3 = Some (Rejected message)"
      using bad by (simp add: x3 3)
    then have "deploy E gitUrl branch s = catchBlock cid message (snd x3)"
      unfolding dep await_resolved [OF r1] x2_def [symmetric] await_resolved [OF r2]
        x3_def [symmetric]
      by (rule await_rejected)
    then show ?thesis
      using x3 by (auto simp: 3 cid_def cmds)
  next
    case 4
    have r1: "fst x1 = Some (Resolved 0)"
      using ok [rule_format, of 0] by (simp add: x1 4)
    have r2: "fst x2 = Some (Resolved 0)"
      using ok [rule_format, of 1] by (simp add: x2 4)
    have r3: "fst x3 = Some (Resolved 0)"
      using ok [rule_format, of 2] by (simp add: x3 4)
    have "fst x4 = Some (Rejected message)"
      using bad by (simp add: x4 4)
    then have "deploy E gitUrl branch s = catchBlock cid message (snd x4)"
      unfolding dep await_resolved [OF r1] x2_def [symmetric] await_resolved [OF r2]
        x3_def [symmetric] await_resolved [OF r3] x4_def [symmetric]
      by (rule await_rejected)
    then show ?thesis
      using x4 by (auto simp: 4 cid_def cmds)
  qed
qed

text \<open>
  Claim C6. If the first \<open>k\<close> steps of a deployment resolve and the next one rejects with a
  message, then the response is status 500 with \<^verbatim>\<open>success: false\<close> and the message; the
  commands spawned are the first \<open>k + 1\<close> of the deployment and no more; the last two
  emissions are the event of type stderr with \<^verbatim>\<open>Error: <message>\<close> and the completion event
  with exit code 1, the only completion event of the request. For \<open>k = 2\<close>: if the install
  step rejects, \<^verbatim>\<open>npm run build\<close> is not spawned.
\<close>

theorem deploy_stops_at_first_rejection:
  assumes "k < 4"
    and "\<forall>j<k. outcome (child E (length (spawned s) + j)) = Some (Resolved 0)"
    and "outcome (child E (length (spawned s) + k)) = Some (Rejected message)"
  shows "fst (deploy E gitUrl branch s) =
           Some \<lparr>status = 500, success = False, body_commandId = None,
                  body_error = Some message\<rparr> \<and>
         spawned (snd (deploy E gitUrl branch s)) =
           spawned s @ take (Suc k) (deployCommands E gitUrl branch) \<and>
         drop (length (emitted (snd (deploy E gitUrl branch s))) - 2)
             (emitted (snd (deploy E gitUrl branch s))) =
           [CommandOutput \<lparr>commandId = dateNow E, output_text = js ''Error: '' @ message @ [LF],
              outputType = Stderr, isProgress = None, replaceLast = None\<rparr>,
            CommandFinished (dateNow E) 1] \<and>
         filter isFinished (emitted (snd (deploy E gitUrl branch s))) =
           filter isFinished (emitted s) @ [CommandFinished (dateNow E) 1]"
proof -
  obtain s' where d: "deploy E gitUrl branch s = catchBlock (dateNow E) message s'"
    and sp: "spawned s' = spawned s @ take (Suc k) (deployCommands E gitUrl branch)"
    and fin: "filter isFinished (emitted s') = filter isFinished (emitted s)"
    using deploy_stops [OF assms, of gitUrl branch] by blast
  show ?thesis
    unfolding d by (simp add: catchBlock_facts sp fin)
qed

text \<open>
  The install step exits with code 1: three commands are spawned, the build is not.
\<close>

theorem deploy_stops_at_first_rejection_witness:
  "outcome (child failingInstallEnv (length (spawned server0) + 2)) =
     Some (Rejected (js ''Command failed with exit code 1'')) \<and>
   fst (deploy failingInstallEnv (js ''https://github.com/user/app.git'') (js ''main'') server0) =
     Some \<lparr>status = 500, success = False, body_commandId = None,
            body_error = Some (js ''Command failed with exit code 1'')\<rparr> \<and>
   spawned (snd (deploy failingInstallEnv (js ''https://github.com/user/app.git'') (js ''main'')
     server0)) =
     [(js ''git clone https://github.com/user/app.git'', js ''/srv/repos''),
      (js ''git checkout main && git pull origin main'', js ''/srv/repos/app''),
      (js ''npm install'', js ''/srv/repos/app'')] \<and>
   filter isFinished (emitted (snd (deploy failingInstallEnv (js ''https://github.com/user/app.git'')
     (js ''main'') server0))) = [CommandFinished (js ''7'') 1]"
proof -
  have k: "(2::nat) < 4"
    by simp
  have ok: "\<forall>j<2. outcome (child failingInstallEnv (length (spawned server0) + j)) = Some (Resolved 0)"
    by (simp add: failingInstallEnv_def server0_def)
  have bad: "outcome (child failingInstallEnv (length (spawned server0) + 2)) =
      Some (Rejected (js ''Command failed with exit code 1''))"
    by (simp add: failingInstallEnv_def server0_def numberToString_def digitsOf.simps js_def)
  have cmds: "take (Suc 2) (deployCommands failingInstallEnv (js ''https://github.com/user/app.git'')
      (js ''main'')) =
     [(js ''git clone https://github.com/user/app.git'', js ''/srv/repos''),
      (js ''git checkout main && git pull origin main'', js ''/srv/repos/app''),
      (js ''npm install'', js ''/srv/repos/app'')]"
    by (simp add: deployCommands_def failingInstallEnv_def repoNameOf_def js_split_def js_def Let_def)
  have e: "spawned server0 = []" "emitted server0 = []" "dateNow failingInstallEnv = js ''7''"
    by (simp_all add: server0_def failingInstallEnv_def)
  show ?thesis
    using deploy_stops_at_first_rejection [OF k ok bad, of "js ''https://github.com/user/app.git''"
        "js ''main''"] bad
    unfolding cmds e by simp
qed

end
